theory Spec2Isabelle
  imports Complex_Main "HOL-Library.Word" "HOL-Library.Signed_Division"
begin

unbundle bit_operations_syntax

section \<open>A shallow embedding of \<open>src/parseHiCFile.cpp\<close>\<close>

text \<open>
  The C++ source reads a \<open>.hic\<close> file through a \<open>std::istream\<close>.  Fixed-width values are
  read with \<open>fin.read((char*) &x, n)\<close> in the byte order of the machine; the embedding
  fixes little-endian, 32-bit \<open>int\<close> and 64-bit \<open>long\<close>.  Arithmetic on C++ \<open>int\<close> is
  modelled on \<open>32 word\<close>, so that an addition that leaves the range of \<open>int\<close> wraps around
  as it does on two's-complement hardware.  Executions that the C++ standard leaves
  without a meaning and for which no such common convention exists (a variable used after
  the read that should have filled it failed, a division by zero, a float converted to an
  \<open>int\<close> that cannot hold it, a subscript past the end of a vector) are results of their
  own: \<open>Undefined\<close>.
\<close>

subsection \<open>Bytes and fixed-width values\<close>

type_synonym byte = "8 word"
type_synonym int16_t = "16 word"
type_synonym int32_t = "32 word"
type_synonym int64_t = "64 word"

datatype undefined_behaviour =
    FailedRead            \<comment> \<open>a value is used although the read that fills it failed\<close>
  | DivisionByZero        \<comment> \<open>integer division by zero\<close>
  | FloatToIntRange       \<comment> \<open>float to int conversion of NaN, infinity or a value outside int\<close>
  | SubscriptOutOfRange   \<comment> \<open>a subscript past the end of a vector\<close>
  | IntOverflow           \<comment> \<open>\<open>size*10\<close> outside int\<close>

datatype error =
    CannotOpen                          \<comment> \<open>\<open>stop("File ... cannot be opened for reading.")\<close>\<close>
  | MagicMissing                        \<comment> \<open>\<open>stop("Hi-C magic string is missing, ...")\<close>\<close>
  | VersionUnsupported int32_t          \<comment> \<open>\<open>stop("Version ... no longer supported.")\<close>\<close>
  | ResolutionMissing int32_t "int32_t list"
      \<comment> \<open>the requested resolution and the resolutions printed on \<open>Rcerr\<close> before
          \<open>stop("Exiting.")\<close>\<close>
  | LengthError                         \<comment> \<open>\<open>std::length_error\<close> of \<open>vector::reserve\<close>\<close>
  | BadArrayNewLength                   \<comment> \<open>\<open>std::bad_array_new_length\<close> of \<open>new char[size]\<close>\<close>
  | Undefined undefined_behaviour

definition bindE :: "error + 'a \<Rightarrow> ('a \<Rightarrow> error + 'b) \<Rightarrow> error + 'b" where
  "bindE m f = (case m of Inl e \<Rightarrow> Inl e | Inr a \<Rightarrow> f a)"

text \<open>The value of the bytes of a fixed-width integer, least significant byte first.\<close>

fun le_word :: "byte list \<Rightarrow> 'a::len word" where
  "le_word [] = 0"
| "le_word (b # bs) = ucast b OR push_bit 8 (le_word bs)"

text \<open>
  \<open>bufferin.read((char*) &x, n)\<close> on the stream over the decompressed block.  The source
  never tests the stream: after a read that fails for lack of bytes the variable is used
  as it is.
\<close>

definition bufread :: "nat \<Rightarrow> byte list \<Rightarrow> error + 'a::len word \<times> byte list" where
  "bufread n buf =
     (if length buf < n then Inl (Undefined FailedRead)
      else Inr (le_word (take n buf), drop n buf))"

subsection \<open>The float values of the record stream\<close>

text \<open>
  A C++ \<open>float\<close> is kept as the 32 bits read from the stream (IEEE 754 binary32).  The
  source never computes with floats: it converts them to \<open>int\<close> (\<open>counts\<close> is a
  \<open>std::vector<int>\<close>) and compares them with one constant, so that the exact rational
  value of the bits is all that is needed.
\<close>

definition float_exponent :: "int32_t \<Rightarrow> nat" where
  "float_exponent f = unat (drop_bit 23 f AND 0xFF)"

definition float_fraction :: "int32_t \<Rightarrow> int" where
  "float_fraction f = uint (f AND 0x7FFFFF)"

definition float_negative :: "int32_t \<Rightarrow> bool" where
  "float_negative f = bit f 31"

text \<open>The value of a finite float; \<open>None\<close> for the infinities and the NaNs.\<close>

definition float_value :: "int32_t \<Rightarrow> rat option" where
  "float_value f =
     (let e = float_exponent f; m = float_fraction f;
          a = (if e = 0 then of_int m / 2 ^ 149
               else if 150 \<le> e then of_int ((2 ^ 23 + m) * 2 ^ (e - 150))
               else of_int (2 ^ 23 + m) / 2 ^ (150 - e))
      in if e = 255 then None
         else Some (if float_negative f then - a else a))"

text \<open>
  The conversion of a \<open>float\<close> to \<open>int\<close>, as in \<open>counts.push_back(count)\<close>: the value is
  truncated towards zero, and the conversion has no defined result when the truncated
  value is not an \<open>int\<close>.
\<close>

definition truncate_rat :: "rat \<Rightarrow> int" where
  "truncate_rat q = (if q < 0 then - \<lfloor>- q\<rfloor> else \<lfloor>q\<rfloor>)"

definition float_to_int :: "int32_t \<Rightarrow> int32_t option" where
  "float_to_int f =
     (case float_value f of
        None \<Rightarrow> None
      | Some q \<Rightarrow>
          (let t = truncate_rat q
           in if - (2 ^ 31) \<le> t \<and> t < 2 ^ 31 then Some (word_of_int t) else None))"

text \<open>
  \<open>count != 0x7fc00000\<close> with \<open>float count\<close>: the \<open>int\<close> constant 2143289344 is converted
  to \<open>float\<close> (it is \<open>511 * 2^22\<close>, a float), and the two floats are compared by value.
  A NaN and an infinity differ from it.
\<close>

definition float_ne_0x7fc00000 :: "int32_t \<Rightarrow> bool" where
  "float_ne_0x7fc00000 count =
     (case float_value count of None \<Rightarrow> True | Some q \<Rightarrow> q \<noteq> 0x7fc00000)"

subsection \<open>\<open>hicInfo\<close> and \<open>outputStr\<close>\<close>

record hicInfo =
  master :: int64_t
  availableResolutions :: "int32_t list"
  resolution :: int32_t
  selectedResolutionId :: int
  version :: int32_t
  chromosomes :: "byte list list"
  chromosomeLengths :: "int list"
  totalChromosomes :: int32_t
  firstChromosomeIsAll :: bool

text \<open>All four vectors of the source are \<open>std::vector<int>\<close>, \<open>count\<close> too.\<close>

record outputStr =
  chromosome :: "int32_t list"
  bin1 :: "int32_t list"
  bin2 :: "int32_t list"
  count :: "int32_t list"

subsection \<open>\<open>readBlock\<close>: decoding the decompressed block\<close>

text \<open>The local vectors \<open>bins1\<close>, \<open>bins2\<close>, \<open>counts\<close> of \<open>readBlock\<close>.\<close>

type_synonym vectors = "int32_t list \<times> int32_t list \<times> int32_t list"

definition push_back :: "vectors \<Rightarrow> int32_t \<Rightarrow> int32_t \<Rightarrow> int32_t \<Rightarrow> vectors" where
  "push_back v b1 b2 c =
     (case v of (bins1, bins2, counts) \<Rightarrow> (bins1 @ [b1], bins2 @ [b2], counts @ [c]))"

text \<open>The three \<open>push_back\<close> with a \<open>float count\<close>, converted to the \<open>int\<close> of \<open>counts\<close>.\<close>

definition push_back_float :: "vectors \<Rightarrow> int32_t \<Rightarrow> int32_t \<Rightarrow> int32_t \<Rightarrow> error + vectors" where
  "push_back_float v b1 b2 f =
     (case float_to_int f of
        None \<Rightarrow> Inl (Undefined FloatToIntRange)
      | Some c \<Rightarrow> Inr (push_back v b1 b2 c))"

text \<open>Lines 188 to 197, \<open>info.version < 7\<close>: the first argument counts the rounds left.\<close>

fun readRecords :: "nat \<Rightarrow> byte list \<Rightarrow> vectors \<Rightarrow> error + byte list \<times> vectors" where
  "readRecords 0 buf v = Inr (buf, v)"
| "readRecords (Suc n) buf v =
     bindE (bufread 4 buf) (\<lambda>(binX :: int32_t, buf).
     bindE (bufread 4 buf) (\<lambda>(binY :: int32_t, buf).
     bindE (bufread 4 buf) (\<lambda>(count :: int32_t, buf).
     bindE (push_back_float v binX binY count) (\<lambda>v.
     readRecords n buf v))))"

text \<open>Lines 217 to 236, the columns of one row of the list-of-rows representation.\<close>

fun readColumns ::
  "nat \<Rightarrow> int32_t \<Rightarrow> int32_t \<Rightarrow> byte \<Rightarrow> byte list \<Rightarrow> vectors \<Rightarrow> error + byte list \<times> vectors" where
  "readColumns 0 binXOffset binY useShort buf v = Inr (buf, v)"
| "readColumns (Suc n) binXOffset binY useShort buf v =
     bindE (bufread 2 buf) (\<lambda>(x :: int16_t, buf).
     let binX = binXOffset + scast x in
     if useShort = 0 then
       bindE (bufread 2 buf) (\<lambda>(c :: int16_t, buf).
       readColumns n binXOffset binY useShort buf (push_back v binX binY (scast c)))
     else
       bindE (bufread 4 buf) (\<lambda>(count :: int32_t, buf).
       bindE (push_back_float v binX binY count) (\<lambda>v.
       readColumns n binXOffset binY useShort buf v)))"

text \<open>Lines 210 to 237, the rows.\<close>

fun readRows ::
  "nat \<Rightarrow> int32_t \<Rightarrow> int32_t \<Rightarrow> byte \<Rightarrow> byte list \<Rightarrow> vectors \<Rightarrow> error + byte list \<times> vectors" where
  "readRows 0 binXOffset binYOffset useShort buf v = Inr (buf, v)"
| "readRows (Suc n) binXOffset binYOffset useShort buf v =
     bindE (bufread 2 buf) (\<lambda>(y :: int16_t, buf).
     let binY = scast y + binYOffset in
     bindE (bufread 2 buf) (\<lambda>(totalColumns :: int16_t, buf).
     bindE (readColumns (nat (sint totalColumns)) binXOffset binY useShort buf v) (\<lambda>(buf, v).
     readRows n binXOffset binYOffset useShort buf v)))"

text \<open>
  Lines 246 to 268, the dense representation: \<open>n\<close> rounds are left, \<open>i\<close> is the loop
  variable and \<open>w\<close> the value of the \<open>int16_t w\<close>.  \<open>i / w\<close> truncates towards zero
  (\<open>sdiv\<close>).
\<close>

fun readPoints ::
  "nat \<Rightarrow> int \<Rightarrow> int \<Rightarrow> int32_t \<Rightarrow> int32_t \<Rightarrow> byte \<Rightarrow> byte list \<Rightarrow> vectors
     \<Rightarrow> error + byte list \<times> vectors" where
  "readPoints 0 i w binXOffset binYOffset useShort buf v = Inr (buf, v)"
| "readPoints (Suc n) i w binXOffset binYOffset useShort buf v =
     (if w = 0 then Inl (Undefined DivisionByZero)
      else
        let row = i sdiv w;
            column = i - row * w;
            bin1 = binXOffset + word_of_int column;
            bin2 = binYOffset + word_of_int row
        in
        if useShort = 0 then
          bindE (bufread 2 buf) (\<lambda>(c :: int16_t, buf).
          readPoints n (i + 1) w binXOffset binYOffset useShort buf
            (if sint c \<noteq> - 32768 then push_back v bin1 bin2 (scast c) else v))
        else
          bindE (bufread 4 buf) (\<lambda>(count :: int32_t, buf).
          if float_ne_0x7fc00000 count then
            bindE (push_back_float v bin1 bin2 count) (\<lambda>v.
            readPoints n (i + 1) w binXOffset binYOffset useShort buf v)
          else readPoints n (i + 1) w binXOffset binYOffset useShort buf v))"

text \<open>
  Lines 181 to 279 of \<open>readBlock\<close>: everything after the decompression, on the
  decompressed bytes \<open>buf\<close>.  \<open>reserve(totalRecords)\<close> throws \<open>std::length_error\<close> when
  \<open>totalRecords\<close> is negative (its conversion to \<open>size_t\<close> exceeds \<open>max_size()\<close>).
  An allocation that fails for lack of memory is not modelled.
\<close>

definition decodeBlock :: "byte list \<Rightarrow> int32_t \<Rightarrow> hicInfo \<Rightarrow> outputStr \<Rightarrow> error + outputStr" where
  "decodeBlock buf chromosomeId info output =
     bindE (bufread 4 buf) (\<lambda>(totalRecords :: int32_t, buf).
     if sint totalRecords < 0 then Inl LengthError
     else
       bindE
         (if sint (version info) < 7 then
            readRecords (nat (sint totalRecords)) buf ([], [], [])
          else
            bindE (bufread 4 buf) (\<lambda>(binXOffset :: int32_t, buf).
            bindE (bufread 4 buf) (\<lambda>(binYOffset :: int32_t, buf).
            bindE (bufread 1 buf) (\<lambda>(useShort :: byte, buf).
            bindE (bufread 1 buf) (\<lambda>(blockType :: byte, buf).
            if blockType = 1 then
              bindE (bufread 2 buf) (\<lambda>(totalRows :: int16_t, buf).
              readRows (nat (sint totalRows)) binXOffset binYOffset useShort buf ([], [], []))
            else if blockType = 2 then
              bindE (bufread 4 buf) (\<lambda>(totalPoints :: int32_t, buf).
              bindE (bufread 2 buf) (\<lambda>(w :: int16_t, buf).
              readPoints (nat (sint totalPoints)) 0 (sint w) binXOffset binYOffset useShort
                buf ([], [], [])))
            else Inr (buf, ([], [], [])))))))
         (\<lambda>(buf, (bins1, bins2, counts)).
            Inr (output\<lparr>chromosome := chromosome output @ replicate (length bins1) chromosomeId,
                        bin1 := bin1 output @ bins1,
                        bin2 := bin2 output @ bins2,
                        count := count output @ counts\<rparr>)))"

subsection \<open>The file stream\<close>

text \<open>
  \<open>std::ifstream fin\<close>: the bytes of the file, the read position and the two state bits
  the source can meet.  \<open>seekg_log\<close> is not part of the C++ object: it records the argument
  of every call of \<open>seekg\<close>, so that a statement on which positions were visited can be
  written down.
\<close>

record istream =
  bytes :: "byte list"
  pos :: nat
  eofbit :: bool
  failbit :: bool
  seekg_log :: "int list"

text \<open>
  A function on the stream returns a value or raises, and leaves the stream as it was
  at that moment.
\<close>

type_synonym 'a io = "istream \<Rightarrow> (error + 'a) \<times> istream"

definition returnIO :: "'a \<Rightarrow> 'a io" where
  "returnIO a fin = (Inr a, fin)"

definition throwIO :: "error \<Rightarrow> 'a io" where
  "throwIO e fin = (Inl e, fin)"

definition bindIO :: "'a io \<Rightarrow> ('a \<Rightarrow> 'b io) \<Rightarrow> 'b io" where
  "bindIO m f fin = (case m fin of (Inl e, fin') \<Rightarrow> (Inl e, fin') | (Inr a, fin') \<Rightarrow> f a fin')"

definition liftE :: "error + 'a \<Rightarrow> 'a io" where
  "liftE r fin = (r, fin)"

text \<open>
  \<open>fin.read(p, n)\<close> of \<open>n\<close> raw bytes.  A read on a stream that is not good, or that
  finds fewer than \<open>n\<close> bytes, fails; the source goes on with what the destination
  held.
\<close>

definition read_bytes :: "nat \<Rightarrow> byte list io" where
  "read_bytes n fin =
     (if eofbit fin \<or> failbit fin then (Inl (Undefined FailedRead), fin\<lparr>failbit := True\<rparr>)
      else if length (bytes fin) < pos fin + n then
        (Inl (Undefined FailedRead),
         fin\<lparr>pos := max (pos fin) (length (bytes fin)), eofbit := True, failbit := True\<rparr>)
      else (Inr (take n (drop (pos fin) (bytes fin))), fin\<lparr>pos := pos fin + n\<rparr>))"

text \<open>\<open>fin.read((char*) &x, n)\<close> for a fixed-width integer \<open>x\<close>.\<close>

definition read_word :: "nat \<Rightarrow> 'a::len word io" where
  "read_word n = bindIO (read_bytes n) (\<lambda>bs. returnIO (le_word bs))"

text \<open>
  \<open>getline(fin, str, '\0')\<close> into a fresh string: the bytes before the next zero byte,
  which is consumed.  Without a zero byte the rest of the file is the string and the
  stream is at its end; on a stream that is not good the string stays empty.
\<close>

definition getline :: "byte list io" where
  "getline fin =
     (if eofbit fin \<or> failbit fin then (Inr [], fin\<lparr>failbit := True\<rparr>)
      else
        let rest = drop (pos fin) (bytes fin);
            str = takeWhile (\<lambda>b. b \<noteq> 0) rest
        in if length str < length rest then (Inr str, fin\<lparr>pos := pos fin + length str + 1\<rparr>)
           else (Inr str, fin\<lparr>pos := max (pos fin) (length (bytes fin)), eofbit := True,
                               failbit := (str = [])\<rparr>))"

text \<open>
  \<open>fin.tellg()\<close> gives -1 on a stream that is not good.  \<open>fin.seekg(off, std::ios::beg)\<close>
  clears \<open>eofbit\<close>, does nothing more on a failed stream, and fails for a negative
  offset; a position past the end of the file is accepted, and the next read fails.
\<close>

definition tellg :: "int io" where
  "tellg fin =
     (if eofbit fin \<or> failbit fin then (Inr (- 1), fin\<lparr>failbit := True\<rparr>)
      else (Inr (int (pos fin)), fin))"

definition seekg :: "int \<Rightarrow> unit io" where
  "seekg off fin =
     (Inr (),
      if failbit fin then fin\<lparr>eofbit := False, seekg_log := seekg_log fin @ [off]\<rparr>
      else if off < 0 then
        fin\<lparr>eofbit := False, failbit := True, seekg_log := seekg_log fin @ [off]\<rparr>
      else fin\<lparr>pos := nat off, eofbit := False, seekg_log := seekg_log fin @ [off]\<rparr>)"

subsection \<open>\<open>readMagicString\<close> and \<open>readHeader\<close>\<close>

text \<open>
  \<open>str[0] == 'H' && str[1] == 'I' && str[2] == 'C'\<close>: the string holds no zero byte, and
  \<open>str[str.size()]\<close> is the zero character, so the test reads no character past it.
\<close>

definition readMagicString :: "bool io" where
  "readMagicString = bindIO getline (\<lambda>str. returnIO (take 3 str = [0x48, 0x49, 0x43]))"

text \<open>Lines 108 to 112, the attribute dictionary, read and dropped.\<close>

fun readAttributes :: "nat \<Rightarrow> unit io" where
  "readAttributes 0 = returnIO ()"
| "readAttributes (Suc n) =
     bindIO getline (\<lambda>key.
     bindIO getline (\<lambda>value.
     readAttributes n))"

text \<open>Lines 115 to 122, the chromosome table.\<close>

fun readChromosomes :: "nat \<Rightarrow> hicInfo \<Rightarrow> hicInfo io" where
  "readChromosomes 0 info = returnIO info"
| "readChromosomes (Suc n) info =
     bindIO getline (\<lambda>name.
     bindIO (read_word 4) (\<lambda>length :: int32_t.
     readChromosomes n
       (info\<lparr>chromosomes := chromosomes info @ [name],
              chromosomeLengths := chromosomeLengths info @ [sint length]\<rparr>)))"

text \<open>
  Lines 125 to 132, the resolutions: \<open>n\<close> rounds are left and \<open>i\<close> is the loop variable.
\<close>

fun readResolutions :: "nat \<Rightarrow> int \<Rightarrow> hicInfo \<Rightarrow> hicInfo io" where
  "readResolutions 0 i info = returnIO info"
| "readResolutions (Suc n) i info =
     bindIO (read_word 4) (\<lambda>resolution' :: int32_t.
     let info = info\<lparr>availableResolutions := availableResolutions info @ [resolution']\<rparr>;
         info = (if resolution' = resolution info then info\<lparr>selectedResolutionId := i\<rparr>
                 else info)
     in readResolutions n (i + 1) info)"

text \<open>The names \<open>"ALL"\<close> and \<open>"All"\<close> as bytes.\<close>

definition name_ALL :: "byte list" where
  "name_ALL = [0x41, 0x4C, 0x4C]"

definition name_All :: "byte list" where
  "name_All = [0x41, 0x6C, 0x6C]"

definition readHeader :: "hicInfo \<Rightarrow> hicInfo io" where
  "readHeader info =
     (let info = info\<lparr>selectedResolutionId := - 1\<rparr> in
      bindIO readMagicString (\<lambda>magic.
      if \<not> magic then throwIO MagicMissing
      else
        bindIO (read_word 4) (\<lambda>version' :: int32_t.
        let info = info\<lparr>version := version'\<rparr> in
        if sint (version info) < 6 then throwIO (VersionUnsupported (version info))
        else
          bindIO (read_word 8) (\<lambda>master' :: int64_t.
          let info = info\<lparr>master := master'\<rparr> in
          bindIO getline (\<lambda>genome.
          bindIO (read_word 4) (\<lambda>totalAttributes :: int32_t.
          bindIO (readAttributes (nat (sint totalAttributes))) (\<lambda>_.
          bindIO (read_word 4) (\<lambda>totalChromosomes' :: int32_t.
          let info = info\<lparr>totalChromosomes := totalChromosomes'\<rparr> in
          bindIO (readChromosomes (nat (sint (totalChromosomes info))) info) (\<lambda>info.
          bindIO (read_word 4) (\<lambda>totalResolutions :: int32_t.
          bindIO (readResolutions (nat (sint totalResolutions)) 0 info) (\<lambda>info.
          case chromosomes info of
            [] \<Rightarrow> throwIO (Undefined SubscriptOutOfRange)
          | first # _ \<Rightarrow>
              returnIO (info\<lparr>firstChromosomeIsAll :=
                                 (first = name_ALL \<or> first = name_All)\<rparr>))))))))))))"

subsection \<open>\<open>readBlock\<close>\<close>

text \<open>
  \<open>inflate\<close> stands for the three calls of zlib (\<open>inflateInit\<close>, \<open>inflate\<close>, \<open>inflateEnd\<close>),
  whose code is not part of the repository: from the compressed bytes and the size of the
  output array it gives the \<open>total_out\<close> bytes that were written.  The source looks at no
  return code of zlib.  \<open>new char[size]\<close> throws for a negative size.
\<close>

definition readBlock ::
  "(byte list \<Rightarrow> nat \<Rightarrow> byte list) \<Rightarrow> int \<Rightarrow> int32_t \<Rightarrow> int32_t \<Rightarrow> hicInfo \<Rightarrow> outputStr
     \<Rightarrow> outputStr io" where
  "readBlock inflate position size' chromosomeId info output =
     (if size' = 0 then returnIO output
      else if sint size' < 0 then throwIO BadArrayNewLength
      else if 2 ^ 31 \<le> sint size' * 10 then throwIO (Undefined IntOverflow)
      else
        bindIO (seekg position) (\<lambda>_.
        bindIO (read_bytes (nat (sint size'))) (\<lambda>compressedBytes.
        liftE (decodeBlock (inflate compressedBytes (nat (sint size' * 10)))
                 chromosomeId info output))))"

subsection \<open>\<open>readMatrix\<close>\<close>

text \<open>
  Lines 325 to 338, the block pointers of one resolution: \<open>n\<close> rounds are left;
  \<open>resolutionId\<close> is the loop variable of the enclosing loop.
\<close>

fun readBlockPointers ::
  "(byte list \<Rightarrow> nat \<Rightarrow> byte list) \<Rightarrow> nat \<Rightarrow> int \<Rightarrow> int32_t \<Rightarrow> hicInfo \<Rightarrow> outputStr
     \<Rightarrow> outputStr io" where
  "readBlockPointers inflate 0 resolutionId chromosomeId1 info output = returnIO output"
| "readBlockPointers inflate (Suc n) resolutionId chromosomeId1 info output =
     bindIO (read_word 4) (\<lambda>blockId :: int32_t.
     bindIO (read_word 8) (\<lambda>blockPosition :: int64_t.
     bindIO (read_word 4) (\<lambda>blockSize :: int32_t.
     bindIO
       (if resolutionId = selectedResolutionId info then
          bindIO tellg (\<lambda>pos.
          bindIO (readBlock inflate (sint blockPosition) blockSize chromosomeId1 info output)
            (\<lambda>output.
          bindIO (seekg pos) (\<lambda>_.
          returnIO output)))
        else returnIO output)
       (\<lambda>output. readBlockPointers inflate n resolutionId chromosomeId1 info output))))"

text \<open>Lines 303 to 339, the resolutions of one matrix.\<close>

fun readMatrixResolutions ::
  "(byte list \<Rightarrow> nat \<Rightarrow> byte list) \<Rightarrow> nat \<Rightarrow> int \<Rightarrow> int32_t \<Rightarrow> hicInfo \<Rightarrow> outputStr
     \<Rightarrow> outputStr io" where
  "readMatrixResolutions inflate 0 resolutionId chromosomeId1 info output = returnIO output"
| "readMatrixResolutions inflate (Suc n) resolutionId chromosomeId1 info output =
     bindIO getline (\<lambda>unit.
     bindIO (read_word 4) (\<lambda>resIdx :: int32_t.
     bindIO (read_word 4) (\<lambda>sumCounts :: int32_t.
     bindIO (read_word 4) (\<lambda>occupiedCellCount :: int32_t.
     bindIO (read_word 4) (\<lambda>stdDev :: int32_t.
     bindIO (read_word 4) (\<lambda>percent95 :: int32_t.
     bindIO (read_word 4) (\<lambda>binSize :: int32_t.
     bindIO (read_word 4) (\<lambda>totalBlockBins :: int32_t.
     bindIO (read_word 4) (\<lambda>totalBlockColumns :: int32_t.
     bindIO (read_word 4) (\<lambda>totalBlocks :: int32_t.
     bindIO
       (readBlockPointers inflate (nat (sint totalBlocks)) resolutionId chromosomeId1 info
          output)
       (\<lambda>output.
          readMatrixResolutions inflate n (resolutionId + 1) chromosomeId1 info
            output)))))))))))"

definition readMatrix ::
  "(byte list \<Rightarrow> nat \<Rightarrow> byte list) \<Rightarrow> int \<Rightarrow> int32_t \<Rightarrow> hicInfo \<Rightarrow> outputStr \<Rightarrow> outputStr io" where
  "readMatrix inflate start size' info output =
     (if start \<noteq> - 1 then
        bindIO (seekg start) (\<lambda>_.
        bindIO (read_word 4) (\<lambda>chromosomeId1 :: int32_t.
        bindIO (read_word 4) (\<lambda>chromosomeId2 :: int32_t.
        if chromosomeId1 = chromosomeId2 then
          if (\<not> firstChromosomeIsAll info) \<or> chromosomeId1 \<noteq> 0 then
            bindIO (read_word 4) (\<lambda>totalResolutions :: int32_t.
            readMatrixResolutions inflate (nat (sint totalResolutions)) 0 chromosomeId1 info
              output)
          else returnIO output
        else returnIO output)))
      else returnIO output)"

subsection \<open>\<open>readFooter\<close> and \<open>parseHiCFile\<close>\<close>

text \<open>Lines 356 to 366, the entries of the footer.\<close>

fun readFooterEntries ::
  "(byte list \<Rightarrow> nat \<Rightarrow> byte list) \<Rightarrow> nat \<Rightarrow> hicInfo \<Rightarrow> outputStr \<Rightarrow> outputStr io" where
  "readFooterEntries inflate 0 info output = returnIO output"
| "readFooterEntries inflate (Suc n) info output =
     bindIO getline (\<lambda>str.
     bindIO (read_word 8) (\<lambda>fpos :: int64_t.
     bindIO (read_word 4) (\<lambda>sizeInBytes :: int32_t.
     bindIO tellg (\<lambda>pos.
     bindIO (readMatrix inflate (sint fpos) sizeInBytes info output) (\<lambda>output.
     bindIO (seekg pos) (\<lambda>_.
     readFooterEntries inflate n info output))))))"

definition readFooter ::
  "(byte list \<Rightarrow> nat \<Rightarrow> byte list) \<Rightarrow> hicInfo \<Rightarrow> outputStr \<Rightarrow> outputStr io" where
  "readFooter inflate info output =
     bindIO (seekg (sint (master info))) (\<lambda>_.
     bindIO (read_word 4) (\<lambda>totalBytes :: int32_t.
     bindIO (read_word 4) (\<lambda>totalEntries :: int32_t.
     readFooterEntries inflate (nat (sint totalEntries)) info output)))"

text \<open>
  \<open>fin.open(fname, std::fstream::in)\<close>: \<open>None\<close> is a file that cannot be opened, which
  leaves the stream failed.
\<close>

definition ifstream_open :: "byte list option \<Rightarrow> istream" where
  "ifstream_open file =
     (case file of
        None \<Rightarrow> \<lparr>bytes = [], pos = 0, eofbit = False, failbit = True, seekg_log = []\<rparr>
      | Some bs \<Rightarrow> \<lparr>bytes = bs, pos = 0, eofbit = False, failbit = False, seekg_log = []\<rparr>)"

text \<open>
  \<open>hicInfo info; outputStr output;\<close>: the vectors are empty, and every scalar field is
  written by \<open>parseHiCFile\<close> or \<open>readHeader\<close> before it is read, so that the zeros here are
  never seen.
\<close>

definition new_hicInfo :: hicInfo where
  "new_hicInfo =
     \<lparr>master = 0, availableResolutions = [], resolution = 0, selectedResolutionId = 0,
      version = 0, chromosomes = [], chromosomeLengths = [], totalChromosomes = 0,
      firstChromosomeIsAll = False\<rparr>"

definition new_outputStr :: outputStr where
  "new_outputStr = \<lparr>chromosome = [], bin1 = [], bin2 = [], count = []\<rparr>"

text \<open>
  Lines 372 to 389 of \<open>parseHiCFile\<close>, up to the return of \<open>readFooter\<close>.  What follows
  in the source turns \<open>output\<close> and \<open>info.chromosomes\<close> into an R data frame and reads
  nothing more.  The result comes with the stream as the call left it.
\<close>

definition parseHiCFile ::
  "(byte list \<Rightarrow> nat \<Rightarrow> byte list) \<Rightarrow> byte list option \<Rightarrow> int32_t
     \<Rightarrow> (error + hicInfo \<times> outputStr) \<times> istream" where
  "parseHiCFile inflate file resolution' =
     (let info = new_hicInfo; output = new_outputStr; fin = ifstream_open file in
      if failbit fin then throwIO CannotOpen fin
      else
        (let info = info\<lparr>resolution := resolution'\<rparr> in
         bindIO (readHeader info) (\<lambda>info.
         if selectedResolutionId info = - 1 then
           throwIO (ResolutionMissing resolution' (availableResolutions info))
         else
           bindIO (readFooter inflate info output) (\<lambda>output.
           returnIO (info, output))) fin))"

section \<open>The layouts of the specification\<close>

text \<open>
  The properties below speak of blocks that hold given records.  The definitions of this section
  are not taken from the source, which only reads: they write a block in the layouts of
  sections 4.5 and 6 of the specification, so that the reader of the source can be run on
  it.
\<close>

text \<open>The \<open>n\<close> low bytes of a value, least significant byte first.\<close>

fun le_bytes :: "nat \<Rightarrow> 'a::len word \<Rightarrow> byte list" where
  "le_bytes 0 w = []"
| "le_bytes (Suc n) w = ucast w # le_bytes n (drop_bit 8 w)"

text \<open>
  Version below 7: the record count, then per record \<open>binX\<close> and \<open>binY\<close> as 4-byte
  integers and the count as a 4-byte float.
\<close>

type_synonym plain_record = "int32_t \<times> int32_t \<times> int32_t"

definition layout_record :: "plain_record \<Rightarrow> byte list" where
  "layout_record r = (case r of (binX, binY, c) \<Rightarrow> le_bytes 4 binX @ le_bytes 4 binY @ le_bytes 4 c)"

definition layout_plain_block :: "plain_record list \<Rightarrow> byte list" where
  "layout_plain_block rs =
     le_bytes 4 (word_of_nat (length rs) :: int32_t) @ concat (map layout_record rs)"

text \<open>
  Version 7 and later, type 1 (list of rows): a row is its relative \<open>y\<close> and its columns,
  a column is its relative \<open>x\<close> and its count.  The count is carried as 32 bits: the bits
  of the float, or, when \<open>useShort\<close> is 0, a short in the low 16 bits.
\<close>

type_synonym column = "int16_t \<times> int32_t"
type_synonym row = "int16_t \<times> column list"

definition layout_count :: "byte \<Rightarrow> int32_t \<Rightarrow> byte list" where
  "layout_count useShort c = (if useShort = 0 then le_bytes 2 c else le_bytes 4 c)"

definition layout_column :: "byte \<Rightarrow> column \<Rightarrow> byte list" where
  "layout_column useShort col = (case col of (x, c) \<Rightarrow> le_bytes 2 x @ layout_count useShort c)"

definition layout_row :: "byte \<Rightarrow> row \<Rightarrow> byte list" where
  "layout_row useShort r =
     (case r of (y, cols) \<Rightarrow>
        le_bytes 2 y @ le_bytes 2 (word_of_nat (length cols) :: int16_t)
        @ concat (map (layout_column useShort) cols))"

definition layout_rows_block ::
  "int32_t \<Rightarrow> int32_t \<Rightarrow> int32_t \<Rightarrow> byte \<Rightarrow> row list \<Rightarrow> byte list" where
  "layout_rows_block totalRecords binXOffset binYOffset useShort rows =
     le_bytes 4 totalRecords @ le_bytes 4 binXOffset @ le_bytes 4 binYOffset
     @ [useShort] @ [1]
     @ le_bytes 2 (word_of_nat (length rows) :: int16_t)
     @ concat (map (layout_row useShort) rows)"

text \<open>The \<open>(x, y, count)\<close> entries of the rows, in the order of the layout.\<close>

definition entries :: "row list \<Rightarrow> (int16_t \<times> int16_t \<times> int32_t) list" where
  "entries rows = concat (map (\<lambda>(y, cols). map (\<lambda>(x, c). (x, y, c)) cols) rows)"

text \<open>
  The count a record carries for 32 stored bits: the \<open>int\<close> of a short, or the float
  truncated towards zero.
\<close>

definition short_count :: "int32_t \<Rightarrow> int32_t" where
  "short_count c = scast (ucast c :: int16_t)"

definition truncated_count :: "int32_t \<Rightarrow> int32_t" where
  "truncated_count c = (case float_value c of None \<Rightarrow> 0 | Some q \<Rightarrow> word_of_int (truncate_rat q))"

definition record_count :: "byte \<Rightarrow> int32_t \<Rightarrow> int32_t" where
  "record_count useShort c = (if useShort = 0 then short_count c else truncated_count c)"

text \<open>
  Version 7 and later, type 2 (dense): the point count, the row stride \<open>w\<close> and one count
  per point, in the width that \<open>useShort\<close> selects.
\<close>

definition layout_dense_block ::
  "int32_t \<Rightarrow> int32_t \<Rightarrow> int32_t \<Rightarrow> byte \<Rightarrow> int16_t \<Rightarrow> int32_t list \<Rightarrow> byte list" where
  "layout_dense_block totalRecords binXOffset binYOffset useShort w cs =
     le_bytes 4 totalRecords @ le_bytes 4 binXOffset @ le_bytes 4 binYOffset
     @ [useShort] @ [2]
     @ le_bytes 4 (word_of_nat (length cs) :: int32_t) @ le_bytes 2 w
     @ concat (map (layout_count useShort) cs)"

text \<open>The points with their indices, from the index \<open>i\<close> on.\<close>

fun indexed :: "int \<Rightarrow> int32_t list \<Rightarrow> (int \<times> int32_t) list" where
  "indexed i [] = []"
| "indexed i (c # cs) = (i, c) # indexed (i + 1) cs"

text \<open>
  The points that the source keeps: in the short encoding those that differ from -32768,
  in the float encoding those for which its test \<open>count != 0x7fc00000\<close> holds.
\<close>

definition keeps :: "byte \<Rightarrow> int \<times> int32_t \<Rightarrow> bool" where
  "keeps useShort p =
     (if useShort = 0 then sint (ucast (snd p) :: int16_t) \<noteq> - 32768
      else float_ne_0x7fc00000 (snd p))"

text \<open>The floats that \<open>int\<close> can hold after truncation: finite, and between its bounds.\<close>

definition fits_int :: "int32_t \<Rightarrow> bool" where
  "fits_int c =
     (case float_value c of
        None \<Rightarrow> False
      | Some q \<Rightarrow> - (2 ^ 31) \<le> truncate_rat q \<and> truncate_rat q < 2 ^ 31)"

text \<open>The four output vectors have one length.\<close>

definition equal_length :: "outputStr \<Rightarrow> bool" where
  "equal_length output =
     (length (chromosome output) = length (bin1 output)
      \<and> length (bin1 output) = length (bin2 output)
      \<and> length (bin2 output) = length (count output))"

text \<open>\<open>append_records output cid b1 b2 cs\<close>: \<open>output\<close> with records appended.\<close>

definition append_records ::
  "outputStr \<Rightarrow> int32_t \<Rightarrow> int32_t list \<Rightarrow> int32_t list \<Rightarrow> int32_t list \<Rightarrow> outputStr" where
  "append_records output chromosomeId bins1 bins2 counts =
     output\<lparr>chromosome := chromosome output @ replicate (length bins1) chromosomeId,
            bin1 := bin1 output @ bins1,
            bin2 := bin2 output @ bins2,
            count := count output @ counts\<rparr>"

text \<open>A function on the stream that never calls \<open>seekg\<close>, whatever it returns.\<close>

definition no_seek :: "'a io \<Rightarrow> bool" where
  "no_seek m = (\<forall>fin. seekg_log (snd (m fin)) = seekg_log fin)"

text \<open>
  What \<open>selectedResolutionId\<close> is after the resolutions read so far: the last index that
  holds the requested resolution, or -1 when no index does.
\<close>

definition selects_last :: "hicInfo \<Rightarrow> bool" where
  "selects_last info =
     (let rs = availableResolutions info; r = resolution info
      in if r \<in> set rs then
           (\<exists>k < length rs. selectedResolutionId info = int k \<and> rs ! k = r
              \<and> (\<forall>j. k < j \<and> j < length rs \<longrightarrow> rs ! j \<noteq> r))
         else selectedResolutionId info = - 1)"

text \<open>The three local vectors of \<open>readBlock\<close> have one length.\<close>

definition same_length :: "vectors \<Rightarrow> bool" where
  "same_length v =
     (case v of (bins1, bins2, counts) \<Rightarrow>
        length bins1 = length bins2 \<and> length bins2 = length counts)"

text \<open>Every value that a function on the stream returns satisfies \<open>P\<close>.\<close>

definition returns :: "('a \<Rightarrow> bool) \<Rightarrow> 'a io \<Rightarrow> bool" where
  "returns P m = (\<forall>fin a fin'. m fin = (Inr a, fin') \<longrightarrow> P a)"

subsection \<open>An example file\<close>

text \<open>
  A file in the layout of section 6 of the specification, in four parts.  The header:
  magic \<open>HIC\<close>, version 8, master offset 149, genome \<open>hg19\<close>, the attribute \<open>k = v\<close>, the
  chromosome \<open>chr1\<close> of length 1000, the resolution 5000.
\<close>

definition example_header :: "byte list" where
  "example_header =
     [0x48, 0x49, 0x43, 0, 8, 0, 0, 0, 0x95, 0, 0, 0, 0, 0, 0, 0, 0x68, 0x67, 0x31, 0x39,
      0, 1, 0, 0, 0, 0x6B, 0, 0x76, 0, 1, 0, 0, 0, 0x63, 0x68, 0x72, 0x31, 0, 0xE8, 3,
      0, 0, 1, 0, 0, 0, 0x88, 0x13, 0, 0]"

text \<open>
  The block, at offset 50 and stored as it is (the example runs with a decompressor that
  returns its input): 2 records, \<open>binXOffset = 100\<close>, \<open>binYOffset = 200\<close>, \<open>useShort = 1\<close>,
  type 1, one row with \<open>y = 3\<close> and the two columns \<open>(1, 2.5)\<close> and \<open>(2, 1.0)\<close>.
\<close>

definition example_block :: "byte list" where
  "example_block =
     [2, 0, 0, 0, 0x64, 0, 0, 0, 0xC8, 0, 0, 0, 1, 1, 1, 0, 3, 0, 2, 0,
      1, 0, 0, 0, 0x20, 0x40, 2, 0, 0, 0, 0x80, 0x3F]"

text \<open>
  The matrix, at offset 82: the chromosome ids 0 and 0, one resolution with the unit
  \<open>BP\<close>, index 0, four statistics, bin size 5000, block bin count 1, block column count 1
  and one block: id 0, position 50, size 32.
\<close>

definition example_matrix :: "byte list" where
  "example_matrix =
     [0, 0, 0, 0, 0, 0, 0, 0, 1, 0, 0, 0, 0x42, 0x50, 0, 0, 0, 0, 0, 0,
      0, 0, 0, 0, 0, 0, 0, 0, 0, 0, 0, 0, 0, 0, 0, 0x88, 0x13, 0, 0, 1,
      0, 0, 0, 1, 0, 0, 0, 1, 0, 0, 0, 0, 0, 0, 0, 0x32, 0, 0, 0, 0,
      0, 0, 0, 0x20, 0, 0, 0]"

text \<open>
  The footer, at offset 149: 24 bytes, one entry with the key \<open>0_0\<close>, the position 82 and
  the size 67.
\<close>

definition example_footer :: "byte list" where
  "example_footer =
     [0x18, 0, 0, 0, 1, 0, 0, 0, 0x30, 0x5F, 0x30, 0, 0x52, 0, 0, 0, 0, 0, 0, 0,
      0x43, 0, 0, 0]"

definition example_file :: "byte list" where
  "example_file = example_header @ example_block @ example_matrix @ example_footer"

text \<open>The decompressor of the example: the block is stored uncompressed.\<close>

definition stored :: "byte list \<Rightarrow> nat \<Rightarrow> byte list" where
  "stored compressedBytes n = take n compressedBytes"

section \<open>Properties\<close>

subsection \<open>Results and the stream\<close>

lemma bindE_Inl [simp]: "bindE (Inl e) f = Inl e"
  by (simp add: bindE_def)

lemma bindE_Inr [simp]: "bindE (Inr a) f = f a"
  by (simp add: bindE_def)

lemma bindE_Inr_iff: "bindE m f = Inr b \<longleftrightarrow> (\<exists>a. m = Inr a \<and> f a = Inr b)"
  by (cases m) simp_all

lemma bindIO_Inr_iff:
  "bindIO m f fin = (Inr b, fin'') \<longleftrightarrow>
     (\<exists>a fin'. m fin = (Inr a, fin') \<and> f a fin' = (Inr b, fin''))"
  by (auto simp: bindIO_def split: prod.splits sum.splits)

lemma returnIO_Inr_iff: "returnIO a fin = (Inr b, fin') \<longleftrightarrow> a = b \<and> fin = fin'"
  by (auto simp: returnIO_def)

lemma throwIO_not_Inr: "throwIO e fin \<noteq> (Inr b, fin')"
  by (simp add: throwIO_def)

lemma read_word_good:
  "\<not> eofbit fin \<Longrightarrow> \<not> failbit fin \<Longrightarrow> pos fin + n \<le> length (bytes fin) \<Longrightarrow>
   read_word n fin =
     (Inr (le_word (take n (drop (pos fin) (bytes fin)))), fin\<lparr>pos := pos fin + n\<rparr>)"
  by (simp add: read_word_def read_bytes_def bindIO_def returnIO_def)

lemma returns_returnIO: "P a \<Longrightarrow> returns P (returnIO a)"
  by (simp add: returns_def returnIO_def)

lemma returns_throwIO: "returns P (throwIO e)"
  by (simp add: returns_def throwIO_def)

lemma returns_liftE: "(\<And>a. r = Inr a \<Longrightarrow> P a) \<Longrightarrow> returns P (liftE r)"
  by (simp add: returns_def liftE_def)

lemma returns_bindIO:
  assumes "returns Q m" and "\<And>a. Q a \<Longrightarrow> returns P (f a)"
  shows "returns P (bindIO m f)"
  using assms by (fastforce simp: returns_def bindIO_Inr_iff)

lemma returns_bindIO_any:
  assumes "\<And>a. returns P (f a)"
  shows "returns P (bindIO m f)"
  using assms by (fastforce simp: returns_def bindIO_Inr_iff)

lemma no_seek_returnIO: "no_seek (returnIO a)"
  by (simp add: no_seek_def returnIO_def)

lemma no_seek_throwIO: "no_seek (throwIO e)"
  by (simp add: no_seek_def throwIO_def)

lemma no_seek_bindIO:
  assumes "no_seek m" and "\<And>a. no_seek (f a)"
  shows "no_seek (bindIO m f)"
  unfolding no_seek_def
proof
  fix fin
  obtain r fin' where m: "m fin = (r, fin')" by (cases "m fin")
  from assms(1) have l: "seekg_log fin' = seekg_log fin"
    using m by (auto simp: no_seek_def dest: spec [of _ fin])
  show "seekg_log (snd (bindIO m f fin)) = seekg_log fin"
  proof (cases r)
    case (Inl e)
    then show ?thesis using m l by (simp add: bindIO_def)
  next
    case (Inr a)
    from assms(2) [of a] have "seekg_log (snd (f a fin')) = seekg_log fin'"
      by (simp add: no_seek_def)
    then show ?thesis using m l Inr by (simp add: bindIO_def)
  qed
qed

lemma no_seek_read_bytes: "no_seek (read_bytes n)"
  by (simp add: no_seek_def read_bytes_def)

lemma no_seek_read_word: "no_seek (read_word n)"
  unfolding read_word_def
  by (intro no_seek_bindIO no_seek_read_bytes no_seek_returnIO)

lemma no_seek_getline: "no_seek getline"
  by (simp add: no_seek_def getline_def Let_def)

subsection \<open>Bytes and floats\<close>

lemma length_le_bytes [simp]: "length (le_bytes n w) = n"
  by (induction n arbitrary: w) auto

lemma le_word_le_bytes:
  "(le_word (le_bytes n (w :: 'a::len word)) :: 'b::len word) = take_bit (8 * n) (ucast w)"
proof (induction n arbitrary: w)
  case 0
  show ?case by simp
next
  case (Suc n)
  show ?case
    apply (simp add: Suc)
    apply (rule bit_eqI)
    apply (auto simp add: bit_simps)
    done
qed

lemma bufread_le_bytes:
  "(bufread n (le_bytes n (w :: 'a::len word) @ rest) :: error + 'b::len word \<times> byte list)
     = Inr (take_bit (8 * n) (ucast w), rest)"
  by (simp add: bufread_def le_word_le_bytes)

lemma bufread4 [simp]:
  "(bufread 4 (le_bytes 4 (w :: int32_t) @ rest) :: error + int32_t \<times> byte list) = Inr (w, rest)"
  by (simp add: bufread_le_bytes take_bit_word_eq_self)

lemma bufread2 [simp]:
  "(bufread 2 (le_bytes 2 (w :: int16_t) @ rest) :: error + int16_t \<times> byte list) = Inr (w, rest)"
  by (simp add: bufread_le_bytes take_bit_word_eq_self)

lemma bufread2_low [simp]:
  "(bufread 2 (le_bytes 2 (w :: int32_t) @ rest) :: error + int16_t \<times> byte list) = Inr (ucast w, rest)"
  by (simp add: bufread_le_bytes take_bit_word_eq_self)

lemma bufread1 [simp]:
  "(bufread (Suc 0) (b # rest) :: error + byte \<times> byte list) = Inr (b, rest)"
  by (simp add: bufread_def)

lemma sint_word_of_nat_16: "n \<le> 32767 \<Longrightarrow> nat (sint (word_of_nat n :: int16_t)) = n"
  by (simp add: signed_of_nat signed_take_bit_int_eq_self)

lemma sint_word_of_nat_32: "n < 2 ^ 31 \<Longrightarrow> nat (sint (word_of_nat n :: int32_t)) = n"
  by (simp add: signed_of_nat signed_take_bit_int_eq_self)

lemma float_to_int_fits: "fits_int c \<Longrightarrow> float_to_int c = Some (truncated_count c)"
  by (auto simp: fits_int_def float_to_int_def truncated_count_def Let_def split: option.splits)

lemma push_back_float_fits:
  "fits_int c \<Longrightarrow> push_back_float v b1 b2 c = Inr (push_back v b1 b2 (truncated_count c))"
  by (simp add: push_back_float_def float_to_int_fits)

lemma truncated_count_truncates:
  assumes "fits_int c"
  shows "\<exists>q. float_value c = Some q \<and> sint (truncated_count c) = truncate_rat q"
  using assms
  by (auto simp: fits_int_def truncated_count_def signed_of_int signed_take_bit_int_eq_self
      split: option.splits)

lemmas float_defs = float_value_def float_exponent_def float_fraction_def float_negative_def

lemma float_value_2_5: "float_value 0x40200000 = Some (5 / 2)"
  by (simp add: float_defs)

lemma float_value_1: "float_value 0x3F800000 = Some 1"
  by (simp add: float_defs)

lemma truncate_rat_2_5: "truncate_rat (5 / 2) = 2"
  by (simp add: truncate_rat_def) linarith

lemma truncate_rat_1: "truncate_rat 1 = 1"
  by (simp add: truncate_rat_def)

lemma fits_int_2_5: "fits_int 0x40200000"
  by (simp add: fits_int_def float_value_2_5 truncate_rat_2_5)

lemma truncated_count_2_5: "truncated_count 0x40200000 = 2"
  by (simp add: truncated_count_def float_value_2_5 truncate_rat_2_5)

lemma fits_int_1: "fits_int 0x3F800000"
  by (simp add: fits_int_def float_value_1 truncate_rat_1)

lemma truncated_count_1: "truncated_count 0x3F800000 = 1"
  by (simp add: truncated_count_def float_value_1 truncate_rat_1)

lemma keeps_float_1: "keeps 1 (i, 0x3F800000)"
  by (simp add: keeps_def float_ne_0x7fc00000_def float_value_1)

lemma keeps_float_2_5: "keeps 1 (i, 0x40200000)"
  by (simp add: keeps_def float_ne_0x7fc00000_def float_value_2_5)

subsection \<open>The reader on the three layouts of a block\<close>

lemma layout_record_tuple:
  "layout_record (x, y, c) = le_bytes 4 x @ le_bytes 4 y @ le_bytes 4 c"
  by (simp add: layout_record_def)

lemma layout_column_pair:
  "layout_column useShort (x, c) = le_bytes 2 x @ layout_count useShort c"
  by (simp add: layout_column_def)

lemma layout_row_pair:
  "layout_row useShort (y, cols) =
     le_bytes 2 y @ le_bytes 2 (word_of_nat (length cols) :: int16_t)
       @ concat (map (layout_column useShort) cols)"
  by (simp add: layout_row_def)

lemma layout_count_short: "layout_count 0 c = le_bytes 2 c"
  by (simp add: layout_count_def)

lemma layout_count_float: "useShort \<noteq> 0 \<Longrightarrow> layout_count useShort c = le_bytes 4 c"
  by (simp add: layout_count_def)

lemma entries_Cons:
  "entries ((y, cols) # rows) = map (\<lambda>col. (fst col, y, snd col)) cols @ entries rows"
  by (simp add: entries_def case_prod_beta)

lemma length_entries_le:
  "\<forall>r\<in>set rows. length (snd r) \<le> k \<Longrightarrow> length (entries rows) \<le> k * length rows"
  by (induction rows) (auto simp: entries_def)

lemma readRecords_layout:
  "\<forall>r\<in>set rs. fits_int (snd (snd r)) \<Longrightarrow>
   readRecords (length rs) (concat (map layout_record rs) @ rest) (b1, b2, cs) =
     Inr (rest, (b1 @ map fst rs, b2 @ map (fst \<circ> snd) rs,
                 cs @ map (truncated_count \<circ> snd \<circ> snd) rs))"
proof (induction rs arbitrary: b1 b2 cs)
  case Nil
  show ?case by simp
next
  case (Cons r rs)
  obtain x y c where r: "r = (x, y, c)" by (cases r)
  from Cons.prems have fc: "fits_int c" and rest: "\<forall>r\<in>set rs. fits_int (snd (snd r))"
    by (simp_all add: r)
  show ?case
    by (simp add: r layout_record_tuple push_back_float_fits [OF fc] push_back_def
        Cons.IH [OF rest])
qed

lemma readColumns_layout:
  "useShort \<noteq> 0 \<longrightarrow> (\<forall>col\<in>set cols. fits_int (snd col)) \<Longrightarrow>
   readColumns (length cols) bxo binY useShort
       (concat (map (layout_column useShort) cols) @ rest) (b1, b2, cs) =
     Inr (rest, (b1 @ map (\<lambda>col. bxo + scast (fst col)) cols,
                 b2 @ map (\<lambda>col. binY) cols,
                 cs @ map (\<lambda>col. record_count useShort (snd col)) cols))"
proof (induction cols arbitrary: b1 b2 cs)
  case Nil
  show ?case by simp
next
  case (Cons col cols)
  obtain x c where col: "col = (x, c)" by (cases col)
  from Cons.prems have rest: "useShort \<noteq> 0 \<longrightarrow> (\<forall>col\<in>set cols. fits_int (snd col))"
    by simp
  show ?case
  proof (cases "useShort = 0")
    case True
    then show ?thesis
      using Cons.IH [OF rest, of "b1 @ [bxo + scast x]" "b2 @ [binY]" "cs @ [short_count c]"]
      by (simp add: col layout_column_pair layout_count_def push_back_def record_count_def
          short_count_def)
  next
    case False
    with Cons.prems have fc: "fits_int c" by (simp add: col)
    from False show ?thesis
      by (simp add: col layout_column_pair layout_count_def push_back_def record_count_def
          push_back_float_fits [OF fc] Cons.IH [OF rest])
  qed
qed

lemma readRows_layout:
  "\<forall>r\<in>set rows. length (snd r) \<le> 32767 \<Longrightarrow>
   useShort \<noteq> 0 \<longrightarrow> (\<forall>e\<in>set (entries rows). fits_int (snd (snd e))) \<Longrightarrow>
   readRows (length rows) bxo byo useShort
       (concat (map (layout_row useShort) rows) @ rest) (b1, b2, cs) =
     Inr (rest, (b1 @ map (\<lambda>e. bxo + scast (fst e)) (entries rows),
                 b2 @ map (\<lambda>e. scast (fst (snd e)) + byo) (entries rows),
                 cs @ map (\<lambda>e. record_count useShort (snd (snd e))) (entries rows)))"
proof (induction rows arbitrary: b1 b2 cs)
  case Nil
  show ?case by (simp add: entries_def)
next
  case (Cons r rows)
  obtain y cols where r: "r = (y, cols)" by (cases r)
  from Cons.prems have len: "length cols \<le> 32767"
    and lens: "\<forall>r\<in>set rows. length (snd r) \<le> 32767"
    by (simp_all add: r)
  from Cons.prems have fc: "useShort \<noteq> 0 \<longrightarrow> (\<forall>col\<in>set cols. fits_int (snd col))"
    and fr: "useShort \<noteq> 0 \<longrightarrow> (\<forall>e\<in>set (entries rows). fits_int (snd (snd e)))"
    by (force simp: r entries_Cons)+
  show ?case
    by (simp add: r layout_row_pair sint_word_of_nat_16 [OF len] entries_Cons o_def
        readColumns_layout [OF fc] Cons.IH [OF lens fr])
qed

lemma readPoints_layout:
  "w \<noteq> 0 \<Longrightarrow>
   useShort \<noteq> 0 \<longrightarrow> (\<forall>p\<in>set (indexed i cs). keeps useShort p \<longrightarrow> fits_int (snd p)) \<Longrightarrow>
   readPoints (length cs) i w bxo byo useShort
       (concat (map (layout_count useShort) cs) @ rest) (b1, b2, c0) =
     Inr (rest,
          (b1 @ map (\<lambda>p. bxo + word_of_int (fst p - (fst p sdiv w) * w))
                  (filter (keeps useShort) (indexed i cs)),
           b2 @ map (\<lambda>p. byo + word_of_int (fst p sdiv w))
                  (filter (keeps useShort) (indexed i cs)),
           c0 @ map (\<lambda>p. record_count useShort (snd p))
                  (filter (keeps useShort) (indexed i cs))))"
proof (induction cs arbitrary: i b1 b2 c0)
  case Nil
  show ?case by simp
next
  case (Cons c cs)
  from Cons.prems(2)
  have rest: "useShort \<noteq> 0 \<longrightarrow> (\<forall>p\<in>set (indexed (i + 1) cs). keeps useShort p \<longrightarrow> fits_int (snd p))"
    by simp
  note IH = Cons.IH [OF Cons.prems(1) rest]
  show ?case
  proof (cases "useShort = 0")
    case True
    then show ?thesis
      using Cons.prems(1) IH
      by (simp add: layout_count_short keeps_def push_back_def record_count_def
          short_count_def Let_def)
  next
    case False
    show ?thesis
    proof (cases "float_ne_0x7fc00000 c")
      case True
      with False Cons.prems(2) have "fits_int c"
        by (simp add: keeps_def)
      then show ?thesis
        using False True Cons.prems(1) IH
        by (simp add: layout_count_float keeps_def push_back_def record_count_def
            push_back_float_fits Let_def)
    next
      case False
      then show ?thesis
        using \<open>useShort \<noteq> 0\<close> Cons.prems(1) IH
        by (simp add: layout_count_float keeps_def Let_def)
    qed
  qed
qed

lemma decodeBlock_plain:
  assumes v: "sint (version info) < 7" and n: "length rs < 2 ^ 31"
    and f: "\<forall>r\<in>set rs. fits_int (snd (snd r))"
  shows "decodeBlock (layout_plain_block rs @ rest) chromosomeId info out =
         Inr (append_records out chromosomeId (map fst rs) (map (fst \<circ> snd) rs)
                (map (truncated_count \<circ> snd \<circ> snd) rs))"
proof -
  have "\<not> sint (word_of_nat (length rs) :: int32_t) < 0"
    using sint_word_of_nat_32 [OF n] by (cases "length rs = 0") auto
  then show ?thesis
    using readRecords_layout [OF f, of rest "[]" "[]" "[]"]
    by (simp add: decodeBlock_def layout_plain_block_def v sint_word_of_nat_32 [OF n]
        append_records_def)
qed

lemma decodeBlock_rows:
  assumes v: "7 \<le> sint (version info)" and t: "0 \<le> sint totalRecords"
    and n: "length rows \<le> 32767" and m: "\<forall>r\<in>set rows. length (snd r) \<le> 32767"
    and f: "useShort \<noteq> 0 \<longrightarrow> (\<forall>e\<in>set (entries rows). fits_int (snd (snd e)))"
  shows "decodeBlock (layout_rows_block totalRecords binXOffset binYOffset useShort rows @ rest)
           chromosomeId info out =
         Inr (append_records out chromosomeId
                (map (\<lambda>e. binXOffset + scast (fst e)) (entries rows))
                (map (\<lambda>e. scast (fst (snd e)) + binYOffset) (entries rows))
                (map (\<lambda>e. record_count useShort (snd (snd e))) (entries rows)))"
proof -
  have v': "\<not> sint (version info) < 7" using v by simp
  have t': "\<not> sint totalRecords < 0" using t by simp
  show ?thesis
    using readRows_layout [OF m f, of binXOffset binYOffset rest "[]" "[]" "[]"]
    by (simp add: decodeBlock_def layout_rows_block_def v' t' sint_word_of_nat_16 [OF n]
        append_records_def)
qed

lemma decodeBlock_dense:
  assumes v: "7 \<le> sint (version info)" and t: "0 \<le> sint totalRecords"
    and n: "length cs < 2 ^ 31" and w: "w \<noteq> 0"
    and f: "useShort \<noteq> 0 \<longrightarrow>
              (\<forall>p\<in>set (indexed 0 cs). keeps useShort p \<longrightarrow> fits_int (snd p))"
  shows "decodeBlock (layout_dense_block totalRecords binXOffset binYOffset useShort w cs @ rest)
           chromosomeId info out =
         Inr (append_records out chromosomeId
                (map (\<lambda>p. binXOffset + word_of_int (fst p - (fst p sdiv sint w) * sint w))
                   (filter (keeps useShort) (indexed 0 cs)))
                (map (\<lambda>p. binYOffset + word_of_int (fst p sdiv sint w))
                   (filter (keeps useShort) (indexed 0 cs)))
                (map (\<lambda>p. record_count useShort (snd p))
                   (filter (keeps useShort) (indexed 0 cs))))"
proof -
  have v': "\<not> sint (version info) < 7" using v by simp
  have t': "\<not> sint totalRecords < 0" using t by simp
  have w': "sint w \<noteq> 0" using w by (simp add: signed_eq_0_iff)
  show ?thesis
    using readPoints_layout [OF w' f, of binXOffset binYOffset rest "[]" "[]" "[]"]
    by (simp add: decodeBlock_def layout_dense_block_def v' t' sint_word_of_nat_32 [OF n]
        append_records_def)
qed

subsection \<open>Blocks\<close>

text \<open>
  C4.  A block of version 7 or later and of type 1 that holds the rows \<open>rows\<close> decodes to
  one record per \<open>(x, y, count)\<close> entry, in the order of the block, with
  \<open>bin1 = binXOffset + x\<close> and \<open>bin2 = binYOffset + y\<close> (in the arithmetic of \<open>int\<close>) and
  with no entry dropped.  The count is read in two bytes when \<open>useShort\<close> is 0 and in four
  bytes, as a float, otherwise: the reader stays aligned with a block laid out in these
  widths, and the record carries the short, or the float truncated to an \<open>int\<close>.  A row
  count and a column count are 2-byte signed values, so that a block holds at most 32767
  rows of at most 32767 columns; a float count must be one that \<open>int\<close> can hold.
\<close>

theorem list_of_rows_decodes_every_entry:
  assumes "7 \<le> sint (version info)" and "0 \<le> sint totalRecords"
    and "length rows \<le> 32767" and "\<forall>r\<in>set rows. length (snd r) \<le> 32767"
    and "useShort \<noteq> 0 \<longrightarrow> (\<forall>e\<in>set (entries rows). fits_int (snd (snd e)))"
  shows "decodeBlock (layout_rows_block totalRecords binXOffset binYOffset useShort rows @ rest)
           chromosomeId info out =
         Inr (append_records out chromosomeId
                (map (\<lambda>(x, y, c). binXOffset + scast x) (entries rows))
                (map (\<lambda>(x, y, c). binYOffset + scast y) (entries rows))
                (map (\<lambda>(x, y, c). if useShort = 0 then short_count c else truncated_count c)
                   (entries rows)))"
  using decodeBlock_rows [OF assms, of binXOffset binYOffset rest chromosomeId out]
  by (simp add: split_def record_count_def add.commute)

theorem list_of_rows_decodes_every_entry_witness:
  "7 \<le> sint (version (new_hicInfo\<lparr>version := 8\<rparr>)) \<and> 0 \<le> sint (2 :: int32_t)
   \<and> length [(3 :: int16_t, [(1 :: int16_t, 0x40200000 :: int32_t), (2, 0x3F800000)])] \<le> 32767
   \<and> length [(1 :: int16_t, 0x40200000 :: int32_t), (2, 0x3F800000)] \<le> 32767
   \<and> fits_int 0x40200000 \<and> fits_int 0x3F800000
   \<and> decodeBlock (layout_rows_block 2 100 200 1 [(3, [(1, 0x40200000), (2, 0x3F800000)])] @ [])
         7 (new_hicInfo\<lparr>version := 8\<rparr>) new_outputStr =
       Inr \<lparr>chromosome = [7, 7], bin1 = [101, 102], bin2 = [203, 203], count = [2, 1]\<rparr>"
  using list_of_rows_decodes_every_entry
    [where info = "new_hicInfo\<lparr>version := 8\<rparr>" and totalRecords = 2
       and rows = "[(3, [(1, 0x40200000), (2, 0x3F800000)])]" and useShort = 1
       and binXOffset = 100 and binYOffset = 200 and rest = "[]" and chromosomeId = 7
       and out = new_outputStr]
  by (simp add: new_hicInfo_def new_outputStr_def entries_def fits_int_2_5 fits_int_1
      truncated_count_2_5 truncated_count_1 append_records_def)

text \<open>
  C6.  The same records, once in the layout of versions below 7 and once in the layout of
  version 7 and later with type 1 and \<open>useShort = 1\<close>, decode to the same records: both
  readers return the output extended by the same four sequences.  The records are those
  that the type-1 layout can hold (see C4), with counts that \<open>int\<close> can hold.
\<close>

theorem version_boundary_same_records:
  assumes "sint (version info6) < 7" and "7 \<le> sint (version info7)"
    and "0 \<le> sint totalRecords"
    and "length rows \<le> 32767" and "\<forall>r\<in>set rows. length (snd r) \<le> 32767"
    and "\<forall>e\<in>set (entries rows). fits_int (snd (snd e))"
  shows "\<exists>out'.
           decodeBlock
             (layout_plain_block
                (map (\<lambda>(x, y, c). (binXOffset + scast x, binYOffset + scast y, c))
                   (entries rows)) @ rest6)
             chromosomeId info6 out = Inr out'
         \<and> decodeBlock
             (layout_rows_block totalRecords binXOffset binYOffset 1 rows @ rest7)
             chromosomeId info7 out = Inr out'"
proof -
  let ?rs = "map (\<lambda>(x, y, c). (binXOffset + scast x, binYOffset + scast y, c)) (entries rows)"
  have "length (entries rows) \<le> 32767 * length rows"
    using assms(5) by (rule length_entries_le)
  also have "\<dots> \<le> 32767 * 32767"
    using assms(4) by simp
  finally have n: "length ?rs < 2 ^ 31"
    by simp
  have f: "\<forall>r\<in>set ?rs. fits_int (snd (snd r))"
    using assms(6) by (auto simp: split_def)
  have f7: "(1 :: byte) \<noteq> 0 \<longrightarrow> (\<forall>e\<in>set (entries rows). fits_int (snd (snd e)))"
    using assms(6) by simp
  show ?thesis
    using decodeBlock_plain [OF assms(1) n f, of rest6 chromosomeId out]
      decodeBlock_rows [OF assms(2) assms(3) assms(4) assms(5) f7,
        of binXOffset binYOffset rest7 chromosomeId out]
    by (simp add: split_def o_def record_count_def add.commute)
qed

theorem version_boundary_same_records_witness:
  "sint (version (new_hicInfo\<lparr>version := 6\<rparr>)) < 7
   \<and> 7 \<le> sint (version (new_hicInfo\<lparr>version := 8\<rparr>)) \<and> 0 \<le> sint (2 :: int32_t)
   \<and> length [(3 :: int16_t, [(1 :: int16_t, 0x40200000 :: int32_t), (2, 0x3F800000)])] \<le> 32767
   \<and> length [(1 :: int16_t, 0x40200000 :: int32_t), (2, 0x3F800000)] \<le> 32767
   \<and> fits_int 0x40200000 \<and> fits_int 0x3F800000
   \<and> (\<exists>out'.
         decodeBlock
           (layout_plain_block [(101, 203, 0x40200000), (102, 203, 0x3F800000)] @ [])
           7 (new_hicInfo\<lparr>version := 6\<rparr>) new_outputStr = Inr out'
       \<and> decodeBlock
           (layout_rows_block 2 100 200 1 [(3, [(1, 0x40200000), (2, 0x3F800000)])] @ [])
           7 (new_hicInfo\<lparr>version := 8\<rparr>) new_outputStr = Inr out')"
  using version_boundary_same_records
    [where ?info6.0 = "new_hicInfo\<lparr>version := 6\<rparr>" and ?info7.0 = "new_hicInfo\<lparr>version := 8\<rparr>"
       and totalRecords = 2
       and rows = "[(3, [(1, 0x40200000), (2, 0x3F800000)])]"
       and binXOffset = 100 and binYOffset = 200 and ?rest6.0 = "[]" and ?rest7.0 = "[]"
       and chromosomeId = 7 and out = new_outputStr]
  by (simp add: new_hicInfo_def entries_def fits_int_2_5 fits_int_1)

text \<open>
  C1, as the claim states it, fails: the block of a version below 7 that stores the one
  record \<open>(3, 4, 2.5)\<close> (the float 2.5 has the bits \<open>0x40200000\<close>) is returned with the
  count 2.
\<close>

theorem stored_count_2_5_counterexample:
  "float_value 0x40200000 = Some (5 / 2)
   \<and> decodeBlock [1, 0, 0, 0,  3, 0, 0, 0,  4, 0, 0, 0,  0x00, 0x00, 0x20, 0x40]
         7 (new_hicInfo\<lparr>version := 6\<rparr>) new_outputStr =
       Inr \<lparr>chromosome = [7], bin1 = [3], bin2 = [4], count = [2]\<rparr>"
  by (simp add: float_value_2_5 decodeBlock_def new_hicInfo_def new_outputStr_def bufread_def
      push_back_float_def push_back_def float_to_int_fits fits_int_2_5 truncated_count_2_5)

text \<open>
  C1, amended.  For every decoded block, each emitted record's count is the count value
  read from the record stream converted to the \<open>int\<close> of the output vector: a float count
  is truncated towards zero (in a block of a version below 7, and in a block of type 1 or 2
  of a later version when \<open>useShort\<close> is not 0), a short count keeps its value.  The output
  count sequence holds integers, not floating-point values.  In a block of type 2 the
  counts are those of the points that the source keeps.
\<close>

theorem emitted_count_is_truncated_float:
  assumes "sint (version info6) < 7" and "7 \<le> sint (version info7)"
    and "0 \<le> sint totalRecords"
    and "length rs < 2 ^ 31" and "\<forall>r\<in>set rs. fits_int (snd (snd r))"
    and "length rows \<le> 32767" and "\<forall>r\<in>set rows. length (snd r) \<le> 32767"
    and "useShort \<noteq> 0 \<longrightarrow> (\<forall>e\<in>set (entries rows). fits_int (snd (snd e)))"
    and "length cs < 2 ^ 31" and "w \<noteq> 0"
    and "useShort \<noteq> 0 \<longrightarrow>
           (\<forall>p\<in>set (indexed 0 cs). keeps useShort p \<longrightarrow> fits_int (snd p))"
  shows
    "(\<exists>out'. decodeBlock (layout_plain_block rs @ rest) chromosomeId info6 out = Inr out'
        \<and> count out' = count out @ map (\<lambda>(binX, binY, c). truncated_count c) rs)
   \<and> (\<exists>out'. decodeBlock
                (layout_rows_block totalRecords binXOffset binYOffset useShort rows @ rest)
                chromosomeId info7 out = Inr out'
        \<and> count out' =
            count out @ map (\<lambda>(x, y, c). if useShort = 0 then short_count c
                                         else truncated_count c) (entries rows))
   \<and> (\<exists>out'. decodeBlock
                (layout_dense_block totalRecords binXOffset binYOffset useShort w cs @ rest)
                chromosomeId info7 out = Inr out'
        \<and> count out' =
            count out @ map (\<lambda>(i, c). if useShort = 0 then short_count c
                                      else truncated_count c)
                          (filter (keeps useShort) (indexed 0 cs)))
   \<and> (\<forall>c. fits_int c \<longrightarrow>
         (\<exists>q. float_value c = Some q \<and> sint (truncated_count c) = truncate_rat q))"
proof (intro conjI allI impI)
  show "\<exists>out'. decodeBlock (layout_plain_block rs @ rest) chromosomeId info6 out = Inr out'
        \<and> count out' = count out @ map (\<lambda>(binX, binY, c). truncated_count c) rs"
    using decodeBlock_plain [OF assms(1) assms(4) assms(5), of rest chromosomeId out]
    by (simp add: append_records_def split_def o_def)
next
  show "\<exists>out'. decodeBlock
                (layout_rows_block totalRecords binXOffset binYOffset useShort rows @ rest)
                chromosomeId info7 out = Inr out'
        \<and> count out' =
            count out @ map (\<lambda>(x, y, c). if useShort = 0 then short_count c
                                         else truncated_count c) (entries rows)"
    using decodeBlock_rows [OF assms(2) assms(3) assms(6) assms(7) assms(8),
        of binXOffset binYOffset rest chromosomeId out]
    by (simp add: append_records_def split_def record_count_def)
next
  show "\<exists>out'. decodeBlock
                (layout_dense_block totalRecords binXOffset binYOffset useShort w cs @ rest)
                chromosomeId info7 out = Inr out'
        \<and> count out' =
            count out @ map (\<lambda>(i, c). if useShort = 0 then short_count c
                                      else truncated_count c)
                          (filter (keeps useShort) (indexed 0 cs))"
    using decodeBlock_dense [OF assms(2) assms(3) assms(9) assms(10) assms(11),
        of binXOffset binYOffset rest chromosomeId out]
    by (simp add: append_records_def split_def record_count_def)
next
  fix c
  assume "fits_int c"
  then show "\<exists>q. float_value c = Some q \<and> sint (truncated_count c) = truncate_rat q"
    by (rule truncated_count_truncates)
qed

theorem emitted_count_is_truncated_float_witness:
  "sint (version (new_hicInfo\<lparr>version := 6\<rparr>)) < 7
   \<and> 7 \<le> sint (version (new_hicInfo\<lparr>version := 8\<rparr>)) \<and> 0 \<le> sint (2 :: int32_t)
   \<and> length [(3 :: int32_t, 4 :: int32_t, 0x40200000 :: int32_t)] < 2 ^ 31
   \<and> length [(3 :: int16_t, [(1 :: int16_t, 0x40200000 :: int32_t), (2, 0x3F800000)])] \<le> 32767
   \<and> length [(1 :: int16_t, 0x40200000 :: int32_t), (2, 0x3F800000)] \<le> 32767
   \<and> length [0x3F800000 :: int32_t, 0x40200000] < 2 ^ 31 \<and> (3 :: int16_t) \<noteq> 0
   \<and> fits_int 0x40200000 \<and> fits_int 0x3F800000
   \<and> (\<exists>out'. decodeBlock (layout_plain_block [(3, 4, 0x40200000)] @ []) 7
                 (new_hicInfo\<lparr>version := 6\<rparr>) new_outputStr = Inr out'
        \<and> count out' = [2])
   \<and> (\<exists>out'. decodeBlock
                 (layout_rows_block 2 100 200 1 [(3, [(1, 0x40200000), (2, 0x3F800000)])] @ [])
                 7 (new_hicInfo\<lparr>version := 8\<rparr>) new_outputStr = Inr out'
        \<and> count out' = [2, 1])
   \<and> (\<exists>out'. decodeBlock
                 (layout_dense_block 2 100 200 1 3 [0x3F800000, 0x40200000] @ [])
                 7 (new_hicInfo\<lparr>version := 8\<rparr>) new_outputStr = Inr out'
        \<and> count out' = [1, 2])
   \<and> float_value 0x40200000 = Some (5 / 2) \<and> truncate_rat (5 / 2) = 2
   \<and> sint (truncated_count 0x40200000) = 2"
proof -
  note t = emitted_count_is_truncated_float
    [where ?info6.0 = "new_hicInfo\<lparr>version := 6\<rparr>"
       and ?info7.0 = "new_hicInfo\<lparr>version := 8\<rparr>"
       and totalRecords = 2 and rs = "[(3, 4, 0x40200000)]"
       and rows = "[(3, [(1, 0x40200000), (2, 0x3F800000)])]" and useShort = 1
       and cs = "[0x3F800000, 0x40200000]" and w = 3
       and binXOffset = 100 and binYOffset = 200 and rest = "[]" and chromosomeId = 7
       and out = new_outputStr]
  have "sint (version (new_hicInfo\<lparr>version := 6\<rparr>)) < 7"
    "7 \<le> sint (version (new_hicInfo\<lparr>version := 8\<rparr>))"
    by (simp_all add: new_hicInfo_def)
  from t [OF this]
  show ?thesis
    by (simp add: new_hicInfo_def new_outputStr_def entries_def fits_int_2_5 fits_int_1
        truncated_count_2_5 truncated_count_1 float_value_2_5 truncate_rat_2_5
        keeps_float_1 keeps_float_2_5)
qed

text \<open>The short encoding of the dense representation drops the point that holds -32768.\<close>

lemma dense_short_sentinel_is_filtered:
  "decodeBlock
     [6, 0, 0, 0,  0, 0, 0, 0,  0, 0, 0, 0,  0,  2,  6, 0, 0, 0,  3, 0,
      1, 0,  1, 0,  1, 0,  1, 0,  0x00, 0x80,  1, 0]
     7 (new_hicInfo\<lparr>version := 8\<rparr>) new_outputStr =
     Inr \<lparr>chromosome = [7, 7, 7, 7, 7], bin1 = [0, 1, 2, 0, 2], bin2 = [0, 0, 0, 1, 1],
          count = [1, 1, 1, 1, 1]\<rparr>"
  by code_simp

text \<open>
  C5.  The dense block with \<open>w = 3\<close>, six points and float counts whose point 4 holds the
  bits \<open>0x7fc00000\<close> of the sentinel NaN: the source compares the float with the number
  2143289344, from which a NaN differs, so the point is not dropped and goes on to the
  conversion of a NaN to \<open>int\<close>.  The same block with the float 2143289344 (the bits
  \<open>0x4EFF8000\<close>) at point 4, which is no sentinel, loses the point of row 1 and column 1.
\<close>

theorem dense_float_sentinel_is_not_filtered:
  "decodeBlock
     [6, 0, 0, 0,  0, 0, 0, 0,  0, 0, 0, 0,  1,  2,  6, 0, 0, 0,  3, 0,
      0x00, 0x00, 0x80, 0x3F,  0x00, 0x00, 0x80, 0x3F,  0x00, 0x00, 0x80, 0x3F,
      0x00, 0x00, 0x80, 0x3F,  0x00, 0x00, 0xC0, 0x7F,  0x00, 0x00, 0x80, 0x3F]
     7 (new_hicInfo\<lparr>version := 8\<rparr>) new_outputStr = Inl (Undefined FloatToIntRange)
   \<and> float_value 0x4EFF8000 = Some 2143289344
   \<and> decodeBlock
     [6, 0, 0, 0,  0, 0, 0, 0,  0, 0, 0, 0,  1,  2,  6, 0, 0, 0,  3, 0,
      0x00, 0x00, 0x80, 0x3F,  0x00, 0x00, 0x80, 0x3F,  0x00, 0x00, 0x80, 0x3F,
      0x00, 0x00, 0x80, 0x3F,  0x00, 0x80, 0xFF, 0x4E,  0x00, 0x00, 0x80, 0x3F]
     7 (new_hicInfo\<lparr>version := 8\<rparr>) new_outputStr =
     Inr \<lparr>chromosome = [7, 7, 7, 7, 7], bin1 = [0, 1, 2, 0, 2], bin2 = [0, 0, 0, 1, 1],
          count = [1, 1, 1, 1, 1]\<rparr>"
  by code_simp

text \<open>
  C9.  The dense block with one point and the row stride \<open>w = 0\<close>: the source divides
  \<open>i\<close> by \<open>w\<close>.
\<close>

theorem dense_zero_stride_divides_by_zero:
  "decodeBlock [1, 0, 0, 0,  0, 0, 0, 0,  0, 0, 0, 0,  0,  2,  1, 0, 0, 0,  0, 0,  5, 0]
     7 (new_hicInfo\<lparr>version := 8\<rparr>) new_outputStr = Inl (Undefined DivisionByZero)"
  by code_simp

subsection \<open>The header\<close>

lemma no_seek_readMagicString: "no_seek readMagicString"
  unfolding readMagicString_def
  by (intro no_seek_bindIO no_seek_getline no_seek_returnIO)

lemma no_seek_readAttributes: "no_seek (readAttributes n)"
  by (induction n) (auto intro!: no_seek_bindIO no_seek_getline no_seek_returnIO)

lemma no_seek_readChromosomes: "no_seek (readChromosomes n info)"
  by (induction n arbitrary: info)
    (auto intro!: no_seek_bindIO no_seek_getline no_seek_read_word no_seek_returnIO)

lemma no_seek_readResolutions: "no_seek (readResolutions n i info)"
  by (induction n arbitrary: i info)
    (auto simp: Let_def intro!: no_seek_bindIO no_seek_read_word no_seek_returnIO)

lemma no_seek_readHeader: "no_seek (readHeader info)"
  unfolding readHeader_def Let_def
  by (intro no_seek_bindIO no_seek_readMagicString no_seek_read_word no_seek_getline
      no_seek_readAttributes no_seek_readChromosomes no_seek_readResolutions allI)
    (auto intro!: no_seek_throwIO no_seek_returnIO no_seek_bindIO no_seek_read_word
      no_seek_getline no_seek_readAttributes no_seek_readChromosomes no_seek_readResolutions
      split: list.splits)

lemma selects_last_step:
  assumes "selects_last info" and "i = int (length (availableResolutions info))"
  shows "selects_last
           (let info1 = info\<lparr>availableResolutions := availableResolutions info @ [r']\<rparr>
            in if r' = resolution info1 then info1\<lparr>selectedResolutionId := i\<rparr> else info1)"
proof (cases "r' = resolution info")
  case True
  then show ?thesis
    using assms(2) by (auto simp: selects_last_def Let_def nth_append)
next
  case False
  show ?thesis
  proof (cases "resolution info \<in> set (availableResolutions info)")
    case in_set: True
    with assms(1) obtain k where k: "k < length (availableResolutions info)"
      "selectedResolutionId info = int k" "availableResolutions info ! k = resolution info"
      "\<forall>j. k < j \<and> j < length (availableResolutions info)
           \<longrightarrow> availableResolutions info ! j \<noteq> resolution info"
      by (auto simp: selects_last_def Let_def)
    have "\<forall>j. k < j \<and> j < Suc (length (availableResolutions info))
           \<longrightarrow> (availableResolutions info @ [r']) ! j \<noteq> resolution info"
      using k(4) False by (auto simp: nth_append less_Suc_eq)
    with k False in_set show ?thesis
      by (auto simp: selects_last_def Let_def nth_append intro!: exI [of _ k])
  next
    case False
    with assms(1) \<open>r' \<noteq> resolution info\<close> show ?thesis
      by (auto simp: selects_last_def Let_def)
  qed
qed

lemma readResolutions_selects_last:
  "readResolutions n i info fin = (Inr info', fin') \<Longrightarrow> selects_last info \<Longrightarrow>
   i = int (length (availableResolutions info)) \<Longrightarrow>
   selects_last info' \<and> resolution info' = resolution info"
proof (induction n arbitrary: i info fin)
  case 0
  then show ?case by (simp add: returnIO_Inr_iff)
next
  case (Suc n)
  from Suc.prems(1) obtain r' fin1 where
    rd: "read_word 4 fin = (Inr (r' :: int32_t), fin1)" and
    rest: "readResolutions n (i + 1)
             (let info1 = info\<lparr>availableResolutions := availableResolutions info @ [r']\<rparr>
              in if r' = resolution info1 then info1\<lparr>selectedResolutionId := i\<rparr> else info1)
             fin1 = (Inr info', fin')"
    by (auto simp: bindIO_Inr_iff Let_def)
  let ?info1 = "let info1 = info\<lparr>availableResolutions := availableResolutions info @ [r']\<rparr>
              in if r' = resolution info1 then info1\<lparr>selectedResolutionId := i\<rparr> else info1"
  have s1: "selects_last ?info1"
    using Suc.prems(2,3) by (rule selects_last_step)
  have i1: "i + 1 = int (length (availableResolutions ?info1))"
    using Suc.prems(3) by (simp add: Let_def)
  have r1: "resolution ?info1 = resolution info"
    by (simp add: Let_def)
  from Suc.IH [OF rest s1 i1] r1 show ?case by simp
qed

lemma readChromosomes_keeps:
  "readChromosomes n info fin = (Inr info', fin') \<Longrightarrow>
   availableResolutions info' = availableResolutions info
   \<and> resolution info' = resolution info
   \<and> selectedResolutionId info' = selectedResolutionId info"
proof (induction n arbitrary: info fin)
  case 0
  then show ?case by (simp add: returnIO_Inr_iff)
next
  case (Suc n)
  from Suc.prems obtain name fin1 len fin2 where
    "readChromosomes n
       (info\<lparr>chromosomes := chromosomes info @ [name],
              chromosomeLengths := chromosomeLengths info @ [sint (len :: int32_t)]\<rparr>)
       fin2 = (Inr info', fin')"
    by (auto simp: bindIO_Inr_iff)
  from Suc.IH [OF this] show ?case by simp
qed

lemma readResolutions_from_start:
  assumes "readResolutions n 0 info fin = (Inr info', fin')"
    and "availableResolutions info = []" and "selectedResolutionId info = - 1"
  shows "selects_last info' \<and> resolution info' = resolution info"
proof -
  have "selects_last info"
    using assms(2,3) by (simp add: selects_last_def)
  moreover have "0 = int (length (availableResolutions info))"
    using assms(2) by simp
  ultimately show ?thesis
    using readResolutions_selects_last [OF assms(1)] by blast
qed

lemma selects_last_firstChromosomeIsAll:
  "selects_last (info\<lparr>firstChromosomeIsAll := b\<rparr>) = selects_last info"
  by (simp add: selects_last_def)

lemma readHeader_selects_last:
  assumes "readHeader info fin = (Inr info', fin')" and "availableResolutions info = []"
  shows "selects_last info' \<and> resolution info' = resolution info"
  using assms
  apply (clarsimp simp: readHeader_def Let_def bindIO_Inr_iff throwIO_not_Inr returnIO_Inr_iff
      split: if_splits list.splits)
  apply (drule readChromosomes_keeps)
  apply (clarsimp simp: neq_Nil_conv)
  apply (drule readResolutions_from_start)
    apply (auto simp: selects_last_firstChromosomeIsAll)
  done

text \<open>
  C2, as the claim states it, fails: in the header below (magic \<open>HIC\<close>, version 8, master
  offset 64, genome \<open>hg19\<close>, one attribute, the chromosome \<open>chr1\<close> of length 1000 and the two
  resolutions 5000 and 5000) the requested resolution 5000 stands at the indices 0 and 1,
  and the header reader records the index 1.
\<close>

theorem duplicate_resolution_counterexample:
  "fst (readHeader (new_hicInfo\<lparr>resolution := 5000\<rparr>)
         (ifstream_open (Some
            [0x48, 0x49, 0x43, 0x00,  8, 0, 0, 0,  0x40, 0, 0, 0, 0, 0, 0, 0,
             0x68, 0x67, 0x31, 0x39, 0x00,  1, 0, 0, 0,  0x6B, 0x00,  0x76, 0x00,
             1, 0, 0, 0,  0x63, 0x68, 0x72, 0x31, 0x00,  0xE8, 0x03, 0, 0,
             2, 0, 0, 0,  0x88, 0x13, 0, 0,  0x88, 0x13, 0, 0]))) =
   Inr \<lparr>master = 64, availableResolutions = [5000, 5000], resolution = 5000,
        selectedResolutionId = 1, version = 8, chromosomes = [[0x63, 0x68, 0x72, 0x31]],
        chromosomeLengths = [1000], totalChromosomes = 1, firstChromosomeIsAll = False\<rparr>"
  by code_simp

text \<open>
  C2, amended.  For every header whose resolution list contains the requested resolution,
  once or more than once, the header reader records the last index whose value equals the
  requested resolution: the last match wins.
\<close>

theorem header_selects_last_matching_resolution:
  assumes "fst (readHeader info fin) = Inr info'" and "availableResolutions info = []"
    and "resolution info \<in> set (availableResolutions info')"
  shows "\<exists>k < length (availableResolutions info').
           selectedResolutionId info' = int k
         \<and> availableResolutions info' ! k = resolution info
         \<and> (\<forall>j. k < j \<and> j < length (availableResolutions info')
                \<longrightarrow> availableResolutions info' ! j \<noteq> resolution info)"
proof -
  obtain fin' where "readHeader info fin = (Inr info', fin')"
    using assms(1) by (cases "readHeader info fin") auto
  from readHeader_selects_last [OF this assms(2)] assms(3) show ?thesis
    by (auto simp: selects_last_def Let_def)
qed

theorem header_selects_last_matching_resolution_witness:
  "fst (readHeader (new_hicInfo\<lparr>resolution := 5000\<rparr>)
         (ifstream_open (Some
            [0x48, 0x49, 0x43, 0x00,  8, 0, 0, 0,  0x40, 0, 0, 0, 0, 0, 0, 0,
             0x68, 0x67, 0x31, 0x39, 0x00,  1, 0, 0, 0,  0x6B, 0x00,  0x76, 0x00,
             1, 0, 0, 0,  0x63, 0x68, 0x72, 0x31, 0x00,  0xE8, 0x03, 0, 0,
             3, 0, 0, 0,  0x88, 0x13, 0, 0,  0x88, 0x13, 0, 0,  0x10, 0x27, 0, 0]))) =
   Inr \<lparr>master = 64, availableResolutions = [5000, 5000, 10000], resolution = 5000,
        selectedResolutionId = 1, version = 8, chromosomes = [[0x63, 0x68, 0x72, 0x31]],
        chromosomeLengths = [1000], totalChromosomes = 1, firstChromosomeIsAll = False\<rparr>
   \<and> availableResolutions (new_hicInfo\<lparr>resolution := 5000\<rparr>) = []
   \<and> (5000 :: int32_t) \<in> set [5000, 5000, 10000]
   \<and> (\<exists>k < length [5000 :: int32_t, 5000, 10000].
         (1 :: int) = int k \<and> [5000 :: int32_t, 5000, 10000] ! k = 5000
       \<and> (\<forall>j. k < j \<and> j < length [5000 :: int32_t, 5000, 10000]
              \<longrightarrow> [5000 :: int32_t, 5000, 10000] ! j \<noteq> 5000))"
proof -
  have h: "fst (readHeader (new_hicInfo\<lparr>resolution := 5000\<rparr>)
         (ifstream_open (Some
            [0x48, 0x49, 0x43, 0x00,  8, 0, 0, 0,  0x40, 0, 0, 0, 0, 0, 0, 0,
             0x68, 0x67, 0x31, 0x39, 0x00,  1, 0, 0, 0,  0x6B, 0x00,  0x76, 0x00,
             1, 0, 0, 0,  0x63, 0x68, 0x72, 0x31, 0x00,  0xE8, 0x03, 0, 0,
             3, 0, 0, 0,  0x88, 0x13, 0, 0,  0x88, 0x13, 0, 0,  0x10, 0x27, 0, 0]))) =
   Inr \<lparr>master = 64, availableResolutions = [5000, 5000, 10000], resolution = 5000,
        selectedResolutionId = 1, version = 8, chromosomes = [[0x63, 0x68, 0x72, 0x31]],
        chromosomeLengths = [1000], totalChromosomes = 1, firstChromosomeIsAll = False\<rparr>"
    by code_simp
  have e: "availableResolutions (new_hicInfo\<lparr>resolution := 5000\<rparr>) = []"
    by (simp add: new_hicInfo_def)
  show ?thesis
    using header_selects_last_matching_resolution [OF h e] h e
    by (simp add: new_hicInfo_def)
qed

text \<open>
  C10.  A header that declares no chromosome (here: magic, version 8, master offset 64,
  genome \<open>hg19\<close>, no attribute, 0 chromosomes, the resolution 5000): \<open>readHeader\<close> subscripts
  the empty chromosome table with 0 to set \<open>firstChromosomeIsAll\<close>.
\<close>

theorem empty_chromosome_table_is_subscripted:
  "fst (readHeader (new_hicInfo\<lparr>resolution := 5000\<rparr>)
         (ifstream_open (Some
            [0x48, 0x49, 0x43, 0x00,  8, 0, 0, 0,  0x40, 0, 0, 0, 0, 0, 0, 0,
             0x68, 0x67, 0x31, 0x39, 0x00,  0, 0, 0, 0,
             0, 0, 0, 0,
             1, 0, 0, 0,  0x88, 0x13, 0, 0]))) =
   Inl (Undefined SubscriptOutOfRange)"
  by code_simp

text \<open>
  C3.  When the header of the file can be read and its resolution list does not hold the
  requested resolution, \<open>parseHiCFile\<close> raises the error that carries every resolution of
  the list.  It returns no record; the stream is as \<open>readHeader\<close> left it, so that nothing
  was read after the header, and \<open>seekg\<close> was never called: the master offset was not
  visited.
\<close>

theorem missing_resolution_aborts_before_footer:
  assumes "fst (readHeader (new_hicInfo\<lparr>resolution := r\<rparr>) (ifstream_open (Some bs))) = Inr info"
    and "r \<notin> set (availableResolutions info)"
  shows "fst (parseHiCFile inflate (Some bs) r) =
           Inl (ResolutionMissing r (availableResolutions info))
       \<and> snd (parseHiCFile inflate (Some bs) r) =
           snd (readHeader (new_hicInfo\<lparr>resolution := r\<rparr>) (ifstream_open (Some bs)))
       \<and> seekg_log (snd (parseHiCFile inflate (Some bs) r)) = []"
proof -
  let ?info0 = "new_hicInfo\<lparr>resolution := r\<rparr>"
  let ?fin0 = "ifstream_open (Some bs)"
  obtain fin where h: "readHeader ?info0 ?fin0 = (Inr info, fin)"
    using assms(1) by (cases "readHeader ?info0 ?fin0") auto
  have "availableResolutions ?info0 = []"
    by (simp add: new_hicInfo_def)
  from readHeader_selects_last [OF h this] have "selects_last info" "resolution info = r"
    by simp_all
  with assms(2) have sel: "selectedResolutionId info = - 1"
    by (simp add: selects_last_def Let_def)
  have nf: "\<not> failbit ?fin0"
    by (simp add: ifstream_open_def)
  have p: "parseHiCFile inflate (Some bs) r =
             (Inl (ResolutionMissing r (availableResolutions info)), fin)"
    using h sel nf by (simp add: parseHiCFile_def Let_def bindIO_def throwIO_def)
  have "seekg_log fin = seekg_log ?fin0"
    using no_seek_readHeader [of ?info0] h by (auto simp: no_seek_def dest: spec [of _ ?fin0])
  then have "seekg_log fin = []"
    by (simp add: ifstream_open_def)
  with p h show ?thesis by simp
qed

theorem missing_resolution_aborts_before_footer_witness:
  "fst (readHeader (new_hicInfo\<lparr>resolution := 2500\<rparr>)
         (ifstream_open (Some
            [0x48, 0x49, 0x43, 0x00,  8, 0, 0, 0,  0x40, 0, 0, 0, 0, 0, 0, 0,
             0x68, 0x67, 0x31, 0x39, 0x00,  1, 0, 0, 0,  0x6B, 0x00,  0x76, 0x00,
             1, 0, 0, 0,  0x63, 0x68, 0x72, 0x31, 0x00,  0xE8, 0x03, 0, 0,
             2, 0, 0, 0,  0x88, 0x13, 0, 0,  0x10, 0x27, 0, 0]))) =
   Inr \<lparr>master = 64, availableResolutions = [5000, 10000], resolution = 2500,
        selectedResolutionId = - 1, version = 8, chromosomes = [[0x63, 0x68, 0x72, 0x31]],
        chromosomeLengths = [1000], totalChromosomes = 1, firstChromosomeIsAll = False\<rparr>
   \<and> (2500 :: int32_t) \<notin> set [5000, 10000]
   \<and> fst (parseHiCFile (\<lambda>compressed n. compressed) (Some
            [0x48, 0x49, 0x43, 0x00,  8, 0, 0, 0,  0x40, 0, 0, 0, 0, 0, 0, 0,
             0x68, 0x67, 0x31, 0x39, 0x00,  1, 0, 0, 0,  0x6B, 0x00,  0x76, 0x00,
             1, 0, 0, 0,  0x63, 0x68, 0x72, 0x31, 0x00,  0xE8, 0x03, 0, 0,
             2, 0, 0, 0,  0x88, 0x13, 0, 0,  0x10, 0x27, 0, 0]) 2500) =
       Inl (ResolutionMissing 2500 [5000, 10000])
   \<and> seekg_log (snd (parseHiCFile (\<lambda>compressed n. compressed) (Some
            [0x48, 0x49, 0x43, 0x00,  8, 0, 0, 0,  0x40, 0, 0, 0, 0, 0, 0, 0,
             0x68, 0x67, 0x31, 0x39, 0x00,  1, 0, 0, 0,  0x6B, 0x00,  0x76, 0x00,
             1, 0, 0, 0,  0x63, 0x68, 0x72, 0x31, 0x00,  0xE8, 0x03, 0, 0,
             2, 0, 0, 0,  0x88, 0x13, 0, 0,  0x10, 0x27, 0, 0]) 2500)) = []"
proof -
  have h: "fst (readHeader (new_hicInfo\<lparr>resolution := 2500\<rparr>)
         (ifstream_open (Some
            [0x48, 0x49, 0x43, 0x00,  8, 0, 0, 0,  0x40, 0, 0, 0, 0, 0, 0, 0,
             0x68, 0x67, 0x31, 0x39, 0x00,  1, 0, 0, 0,  0x6B, 0x00,  0x76, 0x00,
             1, 0, 0, 0,  0x63, 0x68, 0x72, 0x31, 0x00,  0xE8, 0x03, 0, 0,
             2, 0, 0, 0,  0x88, 0x13, 0, 0,  0x10, 0x27, 0, 0]))) =
   Inr \<lparr>master = 64, availableResolutions = [5000, 10000], resolution = 2500,
        selectedResolutionId = - 1, version = 8, chromosomes = [[0x63, 0x68, 0x72, 0x31]],
        chromosomeLengths = [1000], totalChromosomes = 1, firstChromosomeIsAll = False\<rparr>"
    by code_simp
  have n: "(2500 :: int32_t) \<notin> set (availableResolutions
     \<lparr>master = 64, availableResolutions = [5000, 10000], resolution = 2500,
        selectedResolutionId = - 1, version = 8, chromosomes = [[0x63, 0x68, 0x72, 0x31]],
        chromosomeLengths = [1000], totalChromosomes = 1, firstChromosomeIsAll = False\<rparr>)"
    by simp
  note t = missing_resolution_aborts_before_footer [OF h n, of "\<lambda>compressed n. compressed"]
  show ?thesis
    using t [THEN conjunct1] t [THEN conjunct2, THEN conjunct2] h
    by simp
qed

subsection \<open>The lengths of the vectors\<close>

lemma same_length_push_back: "same_length v \<Longrightarrow> same_length (push_back v b1 b2 c)"
  by (auto simp: same_length_def push_back_def split: prod.splits)

lemma same_length_push_back_float:
  "push_back_float v b1 b2 f = Inr v' \<Longrightarrow> same_length v \<Longrightarrow> same_length v'"
  by (auto simp: push_back_float_def same_length_push_back split: option.splits)

lemma readRecords_same_length:
  "readRecords n buf v = Inr (buf', v') \<Longrightarrow> same_length v \<Longrightarrow> same_length v'"
proof (induction n arbitrary: buf v)
  case 0
  then show ?case by simp
next
  case (Suc n)
  from Suc.prems(1) obtain binX binY f :: int32_t and b v1 where
    p: "push_back_float v binX binY f = Inr v1" and
    r: "readRecords n b v1 = Inr (buf', v')"
    by (auto simp: bindE_Inr_iff)
  from p Suc.prems(2) have "same_length v1" by (rule same_length_push_back_float)
  with r show ?case by (rule Suc.IH)
qed

lemma readColumns_same_length:
  "readColumns n binXOffset binY useShort buf v = Inr (buf', v') \<Longrightarrow> same_length v \<Longrightarrow>
   same_length v'"
proof (induction n arbitrary: buf v)
  case 0
  then show ?case by simp
next
  case (Suc n)
  show ?case
  proof (cases "useShort = 0")
    case True
    with Suc.prems(1) obtain x c :: int16_t and b where
      r: "readColumns n binXOffset binY useShort b
            (push_back v (binXOffset + scast x) binY (scast c)) = Inr (buf', v')"
      by (auto simp: bindE_Inr_iff Let_def)
    have "same_length (push_back v (binXOffset + scast x) binY (scast c))"
      using Suc.prems(2) by (rule same_length_push_back)
    with r show ?thesis by (rule Suc.IH)
  next
    case False
    with Suc.prems(1) obtain x :: int16_t and f :: int32_t and b v1 where
      p: "push_back_float v (binXOffset + scast x) binY f = Inr v1" and
      r: "readColumns n binXOffset binY useShort b v1 = Inr (buf', v')"
      by (auto simp: bindE_Inr_iff Let_def)
    from p Suc.prems(2) have "same_length v1" by (rule same_length_push_back_float)
    with r show ?thesis by (rule Suc.IH)
  qed
qed

lemma readRows_same_length:
  "readRows n binXOffset binYOffset useShort buf v = Inr (buf', v') \<Longrightarrow> same_length v \<Longrightarrow>
   same_length v'"
proof (induction n arbitrary: buf v)
  case 0
  then show ?case by simp
next
  case (Suc n)
  from Suc.prems(1) obtain y totalColumns :: int16_t and b b1 v1 where
    c: "readColumns (nat (sint totalColumns)) binXOffset (scast y + binYOffset) useShort b v
          = Inr (b1, v1)" and
    r: "readRows n binXOffset binYOffset useShort b1 v1 = Inr (buf', v')"
    by (auto simp: bindE_Inr_iff Let_def)
  from c Suc.prems(2) have "same_length v1" by (rule readColumns_same_length)
  with r show ?case by (rule Suc.IH)
qed

lemma readPoints_same_length:
  "readPoints n i w binXOffset binYOffset useShort buf v = Inr (buf', v') \<Longrightarrow> same_length v \<Longrightarrow>
   same_length v'"
proof (induction n arbitrary: i buf v)
  case 0
  then show ?case by simp
next
  case (Suc n)
  from Suc.prems(1) have w: "w \<noteq> 0"
    by (auto split: if_splits)
  let ?b1 = "binXOffset + word_of_int (i - (i sdiv w) * w)"
  let ?b2 = "binYOffset + word_of_int (i sdiv w)"
  show ?case
  proof (cases "useShort = 0")
    case True
    with Suc.prems(1) w obtain c :: int16_t and b where
      rec: "readPoints n (i + 1) w binXOffset binYOffset useShort b
              (if sint c \<noteq> - 32768 then push_back v ?b1 ?b2 (scast c) else v) = Inr (buf', v')"
      by (auto simp: bindE_Inr_iff Let_def)
    have "same_length (if sint c \<noteq> - 32768 then push_back v ?b1 ?b2 (scast c) else v)"
      using Suc.prems(2) by (simp add: same_length_push_back)
    with rec show ?thesis by (rule Suc.IH)
  next
    case False
    with Suc.prems(1) w obtain f :: int32_t and b where
      rec: "(if float_ne_0x7fc00000 f then
               bindE (push_back_float v ?b1 ?b2 f)
                 (\<lambda>v. readPoints n (i + 1) w binXOffset binYOffset useShort b v)
             else readPoints n (i + 1) w binXOffset binYOffset useShort b v) = Inr (buf', v')"
      by (auto simp: bindE_Inr_iff Let_def)
    show ?thesis
    proof (cases "float_ne_0x7fc00000 f")
      case True
      with rec obtain v1 where p: "push_back_float v ?b1 ?b2 f = Inr v1"
        and r: "readPoints n (i + 1) w binXOffset binYOffset useShort b v1 = Inr (buf', v')"
        by (auto simp: bindE_Inr_iff)
      from p Suc.prems(2) have "same_length v1" by (rule same_length_push_back_float)
      with r show ?thesis by (rule Suc.IH)
    next
      case False
      with rec have "readPoints n (i + 1) w binXOffset binYOffset useShort b v = Inr (buf', v')"
        by simp
      then show ?thesis using Suc.prems(2) by (rule Suc.IH)
    qed
  qed
qed

lemma same_length_Nil: "same_length ([], [], [])"
  by (simp add: same_length_def)

lemma append_records_Nil: "append_records out chromosomeId [] [] [] = out"
  by (simp add: append_records_def)

lemma appendsI:
  "same_length (b1, b2, c) \<Longrightarrow>
   \<exists>bins1 bins2 counts.
     same_length (bins1, bins2, counts)
     \<and> append_records out chromosomeId b1 b2 c =
         append_records out chromosomeId bins1 bins2 counts"
  by blast

lemma appends_NilI:
  "\<exists>bins1 bins2 counts.
     same_length (bins1, bins2, counts)
     \<and> out = append_records out chromosomeId bins1 bins2 counts"
  by (metis append_records_Nil same_length_Nil)

lemma decodeBlock_appends:
  assumes "decodeBlock buf chromosomeId info out = Inr out'"
  shows "\<exists>bins1 bins2 counts.
           same_length (bins1, bins2, counts)
         \<and> out' = append_records out chromosomeId bins1 bins2 counts"
  using assms
  by (auto simp: decodeBlock_def bindE_Inr_iff append_records_def [symmetric]
      append_records_Nil same_length_Nil split: if_splits
      intro!: appendsI appends_NilI
      dest: readRecords_same_length [OF _ same_length_Nil]
        readRows_same_length [OF _ same_length_Nil]
        readPoints_same_length [OF _ same_length_Nil])

lemma decodeBlock_grows_together:
  assumes "decodeBlock buf chromosomeId info out = Inr out'"
  shows "\<exists>n. length (chromosome out') = length (chromosome out) + n
           \<and> length (bin1 out') = length (bin1 out) + n
           \<and> length (bin2 out') = length (bin2 out) + n
           \<and> length (count out') = length (count out) + n"
proof -
  from decodeBlock_appends [OF assms] obtain bins1 bins2 counts where
    "same_length (bins1, bins2, counts)"
    "out' = append_records out chromosomeId bins1 bins2 counts"
    by blast
  then show ?thesis
    by (intro exI [of _ "length bins1"]) (simp add: same_length_def append_records_def)
qed

lemma equal_length_grows:
  assumes "equal_length out"
    and "length (chromosome out') = length (chromosome out) + n"
    and "length (bin1 out') = length (bin1 out) + n"
    and "length (bin2 out') = length (bin2 out) + n"
    and "length (count out') = length (count out) + n"
  shows "equal_length out'"
  using assms by (simp add: equal_length_def)

lemma readBlock_grows_together:
  "returns (\<lambda>out'. \<exists>n. length (chromosome out') = length (chromosome out) + n
                      \<and> length (bin1 out') = length (bin1 out) + n
                      \<and> length (bin2 out') = length (bin2 out) + n
                      \<and> length (count out') = length (count out) + n)
     (readBlock inflate position size' chromosomeId info out)"
    (is "returns ?P _")
proof -
  have "?P out"
    by (rule exI [of _ 0]) simp
  then have A: "returns ?P (returnIO out)"
    by (rule returns_returnIO)
  have B: "returns ?P
             (bindIO (seekg position) (\<lambda>_.
              bindIO (read_bytes (nat (sint size'))) (\<lambda>compressedBytes.
              liftE (decodeBlock (inflate compressedBytes (nat (sint size' * 10)))
                       chromosomeId info out))))"
    by (intro returns_bindIO_any returns_liftE decodeBlock_grows_together)
  show ?thesis
    unfolding readBlock_def using A B by (simp add: returns_throwIO)
qed

lemma readBlock_equal_length:
  "equal_length out \<Longrightarrow>
   returns equal_length (readBlock inflate position size' chromosomeId info out)"
  using readBlock_grows_together [of out inflate position size' chromosomeId info]
  by (auto simp: returns_def intro: equal_length_grows)

lemma readBlock_then_seekg_equal_length:
  "equal_length out \<Longrightarrow>
   returns equal_length
     (bindIO tellg (\<lambda>pos.
      bindIO (readBlock inflate position size' chromosomeId info out) (\<lambda>output.
      bindIO (seekg pos) (\<lambda>_.
      returnIO output))))"
  apply (rule returns_bindIO_any)
  apply (rule returns_bindIO [OF readBlock_equal_length])
   apply assumption
  apply (rule returns_bindIO_any)
  apply (erule returns_returnIO)
  done

lemma readBlockPointers_equal_length:
  "equal_length out \<Longrightarrow>
   returns equal_length (readBlockPointers inflate n resolutionId chromosomeId1 info out)"
proof (induction n arbitrary: out)
  case 0
  then show ?case by (simp add: returns_returnIO)
next
  case (Suc n)
  show ?case
    unfolding readBlockPointers.simps
    apply (rule returns_bindIO_any, rule returns_bindIO_any, rule returns_bindIO_any)
    apply (rule returns_bindIO [where Q = equal_length])
     apply (simp add: readBlock_then_seekg_equal_length [OF Suc.prems]
        returns_returnIO [of equal_length, OF Suc.prems])
    apply (erule Suc.IH)
    done
qed

lemma readMatrixResolutions_equal_length:
  "equal_length out \<Longrightarrow>
   returns equal_length (readMatrixResolutions inflate n resolutionId chromosomeId1 info out)"
proof (induction n arbitrary: out resolutionId)
  case 0
  then show ?case by (simp add: returns_returnIO)
next
  case (Suc n)
  show ?case
    unfolding readMatrixResolutions.simps
    apply (intro returns_bindIO [OF readBlockPointers_equal_length [OF Suc.prems]]
        returns_bindIO_any)
    apply (erule Suc.IH)
    done
qed

lemma readMatrix_equal_length:
  "equal_length out \<Longrightarrow> returns equal_length (readMatrix inflate start size' info out)"
  unfolding readMatrix_def
  by (auto intro!: returns_returnIO returns_bindIO_any readMatrixResolutions_equal_length)

lemma readFooterEntries_equal_length:
  "equal_length out \<Longrightarrow> returns equal_length (readFooterEntries inflate n info out)"
proof (induction n arbitrary: out)
  case 0
  then show ?case by (simp add: returns_returnIO)
next
  case (Suc n)
  show ?case
    unfolding readFooterEntries.simps
    apply (intro returns_bindIO [OF readMatrix_equal_length [OF Suc.prems]]
        returns_bindIO_any)
    apply (erule Suc.IH)
    done
qed

lemma readFooter_equal_length:
  "equal_length out \<Longrightarrow> returns equal_length (readFooter inflate info out)"
  unfolding readFooter_def
  by (intro returns_bindIO_any readFooterEntries_equal_length)

lemma parseHiCFile_equal_length:
  assumes "fst (parseHiCFile inflate file r) = Inr (info, out)"
  shows "equal_length out"
proof -
  have e: "equal_length new_outputStr"
    by (simp add: equal_length_def new_outputStr_def)
  have "returns (\<lambda>(info, out). equal_length out)
          (bindIO (readHeader (new_hicInfo\<lparr>resolution := r\<rparr>)) (\<lambda>info.
             if selectedResolutionId info = - 1 then
               throwIO (ResolutionMissing r (availableResolutions info))
             else
               bindIO (readFooter inflate info new_outputStr) (\<lambda>output.
               returnIO (info, output))))"
    by (auto intro!: returns_bindIO_any returns_throwIO
        returns_bindIO [OF readFooter_equal_length [OF e]] returns_returnIO)
  then show ?thesis
    using assms
    by (cases "parseHiCFile inflate file r")
      (auto simp: parseHiCFile_def Let_def returns_def throwIO_def split: if_splits)
qed

lemma example_parse:
  "fst (parseHiCFile stored (Some example_file) 5000) =
     Inr (\<lparr>master = 149, availableResolutions = [5000], resolution = 5000,
           selectedResolutionId = 0, version = 8, chromosomes = [[0x63, 0x68, 0x72, 0x31]],
           chromosomeLengths = [1000], totalChromosomes = 1, firstChromosomeIsAll = False\<rparr>,
          \<lparr>chromosome = [0, 0], bin1 = [101, 102], bin2 = [203, 203], count = [2, 1]\<rparr>)"
  by code_simp

lemma example_seekg_log:
  "seekg_log (snd (parseHiCFile stored (Some example_file) 5000)) = [149, 82, 50, 149, 173]"
  by code_simp

lemma example_readBlock:
  "fst (readBlock stored 50 32 0 (new_hicInfo\<lparr>version := 8\<rparr>) new_outputStr
          (ifstream_open (Some example_file))) =
     Inr \<lparr>chromosome = [0, 0], bin1 = [101, 102], bin2 = [203, 203], count = [2, 1]\<rparr>"
  by code_simp

lemma example_readMatrix:
  "fst (readMatrix stored 82 67 (new_hicInfo\<lparr>selectedResolutionId := 0, version := 8\<rparr>)
          new_outputStr (ifstream_open (Some example_file))) =
     Inr \<lparr>chromosome = [0, 0], bin1 = [101, 102], bin2 = [203, 203], count = [2, 1]\<rparr>"
  by code_simp

text \<open>
  C8.  Every call of \<open>readBlock\<close> that returns has appended the same number of elements to
  each of the four vectors of the output, and the four vectors that a successful
  \<open>parseHiCFile\<close> has collected have one length.
\<close>

theorem output_vectors_have_equal_length:
  "(\<forall>out'. fst (readBlock inflate position size' chromosomeId info out fin) = Inr out' \<longrightarrow>
      (\<exists>n. length (chromosome out') = length (chromosome out) + n
         \<and> length (bin1 out') = length (bin1 out) + n
         \<and> length (bin2 out') = length (bin2 out) + n
         \<and> length (count out') = length (count out) + n))
   \<and> (\<forall>info' out'. fst (parseHiCFile inflate file r) = Inr (info', out') \<longrightarrow>
         length (chromosome out') = length (bin1 out')
       \<and> length (bin1 out') = length (bin2 out')
       \<and> length (bin2 out') = length (count out'))"
proof (intro conjI allI impI)
  fix out'
  assume "fst (readBlock inflate position size' chromosomeId info out fin) = Inr out'"
  then obtain fin' where
    "readBlock inflate position size' chromosomeId info out fin = (Inr out', fin')"
    by (cases "readBlock inflate position size' chromosomeId info out fin") auto
  with readBlock_grows_together [of out inflate position size' chromosomeId info]
  show "\<exists>n. length (chromosome out') = length (chromosome out) + n
         \<and> length (bin1 out') = length (bin1 out) + n
         \<and> length (bin2 out') = length (bin2 out) + n
         \<and> length (count out') = length (count out) + n"
    unfolding returns_def by blast
next
  fix info' out'
  assume p: "fst (parseHiCFile inflate file r) = Inr (info', out')"
  from parseHiCFile_equal_length [OF p]
  show "length (chromosome out') = length (bin1 out')"
    and "length (bin1 out') = length (bin2 out')"
    and "length (bin2 out') = length (count out')"
    by (simp_all add: equal_length_def)
qed

theorem output_vectors_have_equal_length_witness:
  "fst (readBlock stored 50 32 0 (new_hicInfo\<lparr>version := 8\<rparr>) new_outputStr
          (ifstream_open (Some example_file))) =
     Inr \<lparr>chromosome = [0, 0], bin1 = [101, 102], bin2 = [203, 203], count = [2, 1]\<rparr>
   \<and> (\<exists>n. length [0 :: int32_t, 0] = length (chromosome new_outputStr) + n
          \<and> length [101 :: int32_t, 102] = length (bin1 new_outputStr) + n
          \<and> length [203 :: int32_t, 203] = length (bin2 new_outputStr) + n
          \<and> length [2 :: int32_t, 1] = length (count new_outputStr) + n)
   \<and> fst (parseHiCFile stored (Some example_file) 5000) =
     Inr (\<lparr>master = 149, availableResolutions = [5000], resolution = 5000,
           selectedResolutionId = 0, version = 8, chromosomes = [[0x63, 0x68, 0x72, 0x31]],
           chromosomeLengths = [1000], totalChromosomes = 1, firstChromosomeIsAll = False\<rparr>,
          \<lparr>chromosome = [0, 0], bin1 = [101, 102], bin2 = [203, 203], count = [2, 1]\<rparr>)
   \<and> length [0 :: int32_t, 0] = length [101 :: int32_t, 102]
   \<and> length [101 :: int32_t, 102] = length [203 :: int32_t, 203]
   \<and> length [203 :: int32_t, 203] = length [2 :: int32_t, 1]"
proof -
  note t = output_vectors_have_equal_length
    [of stored 50 32 0 "new_hicInfo\<lparr>version := 8\<rparr>" new_outputStr
      "ifstream_open (Some example_file)" "Some example_file" 5000]
  from t [THEN conjunct1, rule_format, OF example_readBlock]
    t [THEN conjunct2, rule_format, OF example_parse]
    example_readBlock example_parse
  show ?thesis by simp
qed

subsection \<open>Matrix regions\<close>

text \<open>
  C7.  \<open>readMatrix\<close> returns the output as it was given, whatever the region holds after
  its two chromosome ids, when the position of the region is -1, or when the two ids
  (read at \<open>start\<close>, which needs 8 bytes there and a good stream) differ, or when the first
  id is 0 while \<open>firstChromosomeIsAll\<close> holds.  The region of the example file, which
  gives two records (\<open>example_readMatrix\<close>), gives none under \<open>firstChromosomeIsAll\<close>.
\<close>

theorem off_diagonal_region_emits_nothing:
  assumes "chromosomeId1 = (le_word (take 4 (drop (nat start) (bytes fin))) :: int32_t)"
    and "chromosomeId2 = (le_word (take 4 (drop (nat start + 4) (bytes fin))) :: int32_t)"
    and "start = - 1
         \<or> (\<not> failbit fin \<and> 0 \<le> start \<and> nat start + 8 \<le> length (bytes fin)
            \<and> (chromosomeId1 \<noteq> chromosomeId2
               \<or> (firstChromosomeIsAll info \<and> chromosomeId1 = 0)))"
  shows "fst (readMatrix inflate start size' info out fin) = Inr out"
proof (cases "start = - 1")
  case True
  then show ?thesis by (simp add: readMatrix_def returnIO_def)
next
  case False
  with assms(3) have g: "\<not> failbit fin" "0 \<le> start" "nat start + 8 \<le> length (bytes fin)"
    and c: "chromosomeId1 \<noteq> chromosomeId2 \<or> (firstChromosomeIsAll info \<and> chromosomeId1 = 0)"
    by auto
  show ?thesis
    using False c g assms(1,2)
    by (auto simp: readMatrix_def bindIO_def seekg_def read_word_good returnIO_def add.assoc)
qed

theorem off_diagonal_region_emits_nothing_witness:
  "(0 :: int32_t) = le_word (take 4 (drop (nat 82) (bytes (ifstream_open (Some example_file)))))
   \<and> (0 :: int32_t) =
       le_word (take 4 (drop (nat 82 + 4) (bytes (ifstream_open (Some example_file)))))
   \<and> \<not> failbit (ifstream_open (Some example_file))
   \<and> (0 :: int) \<le> 82
   \<and> nat 82 + 8 \<le> length (bytes (ifstream_open (Some example_file)))
   \<and> firstChromosomeIsAll
         (new_hicInfo\<lparr>selectedResolutionId := 0, version := 8, firstChromosomeIsAll := True\<rparr>)
   \<and> fst (readMatrix stored 82 67
         (new_hicInfo\<lparr>selectedResolutionId := 0, version := 8, firstChromosomeIsAll := True\<rparr>)
         new_outputStr (ifstream_open (Some example_file))) =
       Inr new_outputStr"
proof -
  have a: "(0 :: int32_t) =
      le_word (take 4 (drop (nat 82) (bytes (ifstream_open (Some example_file)))))"
    by code_simp
  have b: "(0 :: int32_t) =
      le_word (take 4 (drop (nat 82 + 4) (bytes (ifstream_open (Some example_file)))))"
    by code_simp
  have l: "nat 82 + 8 \<le> length (bytes (ifstream_open (Some example_file)))"
    by code_simp
  have c: "(82 :: int) = - 1
     \<or> (\<not> failbit (ifstream_open (Some example_file))
        \<and> (0 :: int) \<le> 82
        \<and> nat 82 + 8 \<le> length (bytes (ifstream_open (Some example_file)))
        \<and> ((0 :: int32_t) \<noteq> 0
           \<or> (firstChromosomeIsAll
                 (new_hicInfo\<lparr>selectedResolutionId := 0, version := 8,
                    firstChromosomeIsAll := True\<rparr>)
              \<and> (0 :: int32_t) = 0)))"
    using l by (simp add: ifstream_open_def)
  from off_diagonal_region_emits_nothing [OF a b c, of stored 67 new_outputStr] a b l
  show ?thesis by (simp add: ifstream_open_def)
qed

end
